theory Spec2Isabelle
  imports Main "HOL-Library.Product_Lexorder"
begin

section \<open>Python values and exceptions\<close>

text \<open>
  Localized datetimes are only compared with each other in the price, deadline and
  token code, and Python compares aware datetimes by the instant they denote. An
  instant is modelled as an integer (a count of time units since some origin).
\<close>

type_synonym instant = int

text \<open>
  The values that config attributes and request parameters hold in the code under
  study: \<open>None\<close>, booleans, integers, strings and localized datetimes. \<open>truthy\<close>
  is Python's truth test (\<open>if v\<close>, \<open>not v\<close>); a datetime is always true.
\<close>

datatype pyval = PNone | PBool bool | PInt int | PStr string | PDate instant

fun truthy :: "pyval \<Rightarrow> bool" where
  "truthy PNone = False"
| "truthy (PBool b) = b"
| "truthy (PInt i) = (i \<noteq> 0)"
| "truthy (PStr s) = (s \<noteq> [])"
| "truthy (PDate d) = True"

text \<open>The exceptions that the modelled code can raise; \<open>AttributeError\<close> carries its message.\<close>

datatype error = AttributeError string | IndexError | TypeError | ValueError | NoResultFound

section \<open>Attendee badge price (\<open>Config.get_attendee_price\<close>, uber/config.py)\<close>

text \<open>
  The attributes of the global config object that \<open>get_attendee_price\<close> reads.
  \<open>PRICE_BUMPS\<close> and \<open>PRICE_LIMITS\<close> are dictionaries; they are held as
  the list of their items, and \<open>sorted(d.items())\<close> is the sort of that list of
  pairs in the lexicographic order of tuples, as in Python. \<open>BADGES_SOLD\<close> is the
  value of the request-cached database property at the time of the call.
\<close>

record price_config =
  INITIAL_ATTENDEE :: int
  PRICE_BUMPS_ENABLED :: bool
  PRICE_BUMPS :: "(instant \<times> int) list"
  HARDCORE_OPTIMIZATIONS_ENABLED :: bool
  EPOCH :: instant
  PRICE_LIMITS :: "(int \<times> int) list"
  BADGES_SOLD :: int

text \<open>
  The first loop: \<open>for day, bumped_price in sorted(self.PRICE_BUMPS.items())\<close>, with
  \<open>t\<close> the value of \<open>dt or sa.localized_now()\<close>.
\<close>

definition apply_price_bumps :: "instant \<Rightarrow> (instant \<times> int) list \<Rightarrow> int \<Rightarrow> int" where
  "apply_price_bumps t items price =
     fold (\<lambda>(day, bumped_price) price. if t \<ge> day then bumped_price else price) items price"

text \<open>
  The second loop: \<open>for badge_cap, bumped_price in sorted(self.PRICE_LIMITS.items())\<close>.
\<close>

definition apply_price_limits :: "int \<Rightarrow> (int \<times> int) list \<Rightarrow> int \<Rightarrow> int" where
  "apply_price_limits badges_sold items price =
     fold (\<lambda>(badge_cap, bumped_price) price.
             if badges_sold \<ge> badge_cap \<and> bumped_price > price then bumped_price else price)
          items price"

text \<open>
  \<open>get_attendee_price(self, dt=None)\<close>. The argument \<open>now\<close> is the value of
  \<open>sa.localized_now()\<close> during the call; \<open>dt\<close> is \<open>None\<close> or a datetime (a
  datetime is always truthy, so \<open>dt or now\<close> is \<open>dt\<close> whenever one is given, and
  \<open>not dt\<close> holds exactly for \<open>None\<close>).
\<close>

definition get_attendee_price :: "price_config \<Rightarrow> instant \<Rightarrow> instant option \<Rightarrow> int" where
  "get_attendee_price c now dt =
     (let price = INITIAL_ATTENDEE c in
      if PRICE_BUMPS_ENABLED c then
        let price = apply_price_bumps (case dt of Some d \<Rightarrow> d | None \<Rightarrow> now)
                      (sort (PRICE_BUMPS c)) price
        in if dt = None \<and> \<not> HARDCORE_OPTIMIZATIONS_ENABLED c \<and> now < EPOCH c
           then apply_price_limits (BADGES_SOLD c) (sort (PRICE_LIMITS c)) price
           else price
      else price)"

text \<open>
  The price rule in closed form, following the words of the specification: the base
  price; the last bump, in ascending date order, whose date is at or before the
  evaluation time; the highest price among the limits whose badge cap has been
  reached, never below the price reached so far.
\<close>

definition last_applicable_bump :: "price_config \<Rightarrow> instant \<Rightarrow> int" where
  "last_applicable_bump c t =
     (case filter (\<lambda>(day, bumped_price). day \<le> t) (sort (PRICE_BUMPS c)) of
        [] \<Rightarrow> INITIAL_ATTENDEE c
      | ys \<Rightarrow> snd (last ys))"

definition highest_applicable_limit :: "price_config \<Rightarrow> int \<Rightarrow> int" where
  "highest_applicable_limit c price =
     Max (set (price # map snd (filter (\<lambda>(badge_cap, bumped_price). badge_cap \<le> BADGES_SOLD c)
                                  (PRICE_LIMITS c))))"

definition limits_checked :: "price_config \<Rightarrow> instant \<Rightarrow> instant option \<Rightarrow> bool" where
  "limits_checked c now dt \<longleftrightarrow> dt = None \<and> \<not> HARDCORE_OPTIMIZATIONS_ENABLED c \<and> now < EPOCH c"

definition attendee_price_rule :: "price_config \<Rightarrow> instant \<Rightarrow> instant option \<Rightarrow> int" where
  "attendee_price_rule c now dt =
     (if PRICE_BUMPS_ENABLED c then
        (if limits_checked c now dt
         then highest_applicable_limit c (last_applicable_bump c (case dt of Some d \<Rightarrow> d | None \<Rightarrow> now))
         else last_applicable_bump c (case dt of Some d \<Rightarrow> d | None \<Rightarrow> now))
      else INITIAL_ATTENDEE c)"

text \<open>Two concrete configurations used as test inputs.\<close>

definition falling_bump_config :: price_config where
  "falling_bump_config =
     \<lparr>INITIAL_ATTENDEE = 40, PRICE_BUMPS_ENABLED = True, PRICE_BUMPS = [(20, 50), (10, 30)],
      HARDCORE_OPTIMIZATIONS_ENABLED = False, EPOCH = 100, PRICE_LIMITS = [], BADGES_SOLD = 0\<rparr>"

definition limit_config :: price_config where
  "limit_config =
     \<lparr>INITIAL_ATTENDEE = 40, PRICE_BUMPS_ENABLED = True, PRICE_BUMPS = [(20, 50), (10, 45)],
      HARDCORE_OPTIMIZATIONS_ENABLED = False, EPOCH = 30,
      PRICE_LIMITS = [(200, 55), (100, 60)], BADGES_SOLD = 250\<rparr>"

section \<open>Python string and list operations used by the config object\<close>

text \<open>
  Attribute names are ASCII identifiers; a string is a list of characters.
  \<open>startswith\<close> and \<open>endswith\<close> are the methods of \<open>str\<close>.
\<close>

definition startswith :: "string \<Rightarrow> string \<Rightarrow> bool" where
  "startswith s p \<longleftrightarrow> take (length p) s = p"

definition endswith :: "string \<Rightarrow> string \<Rightarrow> bool" where
  "endswith s p \<longleftrightarrow> length p \<le> length s \<and> drop (length s - length p) s = p"

text \<open>
  \<open>s.split(c, n)\<close> for a one-character separator: at most \<open>n\<close> splits, from the
  left. \<open>s.split(c)\<close> splits at every separator; a string has at most \<open>length s\<close>
  of them. \<open>s.rsplit(c, n)\<close> splits from the right.
\<close>

fun split_n :: "char \<Rightarrow> nat \<Rightarrow> string \<Rightarrow> string list" where
  "split_n c 0 s = [s]"
| "split_n c (Suc n) s =
     (if c \<in> set s
      then takeWhile (\<lambda>x. x \<noteq> c) s # split_n c n (tl (dropWhile (\<lambda>x. x \<noteq> c) s))
      else [s])"

definition split_on :: "char \<Rightarrow> string \<Rightarrow> string list" where
  "split_on c s = split_n c (length s) s"

definition rsplit_n :: "char \<Rightarrow> nat \<Rightarrow> string \<Rightarrow> string list" where
  "rsplit_n c n s = rev (map rev (split_n c n (rev s)))"

text \<open>\<open>sep.join(ws)\<close>.\<close>

fun join :: "string \<Rightarrow> string list \<Rightarrow> string" where
  "join sep [] = []"
| "join sep [w] = w"
| "join sep (w # v # ws) = w @ sep @ join sep (v # ws)"

text \<open>\<open>xs[i]\<close> for a non-negative index: an index out of range raises.\<close>

definition py_index :: "'a list \<Rightarrow> nat \<Rightarrow> error + 'a" where
  "py_index xs i = (if i < length xs then Inr (xs ! i) else Inl IndexError)"

text \<open>\<open>s.upper()\<close> and \<open>s.lower()\<close> on ASCII letters.\<close>

definition upper_char :: "char \<Rightarrow> char" where
  "upper_char ch =
     (case map_of (zip ''abcdefghijklmnopqrstuvwxyz'' ''ABCDEFGHIJKLMNOPQRSTUVWXYZ'') ch of
        Some u \<Rightarrow> u
      | None \<Rightarrow> ch)"

definition lower_char :: "char \<Rightarrow> char" where
  "lower_char ch =
     (case map_of (zip ''ABCDEFGHIJKLMNOPQRSTUVWXYZ'' ''abcdefghijklmnopqrstuvwxyz'') ch of
        Some l \<Rightarrow> l
      | None \<Rightarrow> ch)"

definition upper :: "string \<Rightarrow> string" where
  "upper s = map upper_char s"

definition lower :: "string \<Rightarrow> string" where
  "lower s = map lower_char s"

subsection \<open>Lengths of the pieces of a split\<close>

lemma length_tl_dropWhile: "c \<in> set s \<Longrightarrow> length (tl (dropWhile (\<lambda>x. x \<noteq> c) s)) < length s"
proof -
  assume "c \<in> set s"
  then have "dropWhile (\<lambda>x. x \<noteq> c) s \<noteq> []" by (simp add: dropWhile_eq_Nil_conv) 
  then have "length (tl (dropWhile (\<lambda>x. x \<noteq> c) s)) < length (dropWhile (\<lambda>x. x \<noteq> c) s)"
    by (cases "dropWhile (\<lambda>x. x \<noteq> c) s") simp_all
  also have "\<dots> \<le> length s" by (rule length_dropWhile_le)
  finally show ?thesis .
qed

lemma split_n_1: "split_n c (Suc 0) s =
  (if c \<in> set s then [takeWhile (\<lambda>x. x \<noteq> c) s, tl (dropWhile (\<lambda>x. x \<noteq> c) s)] else [s])"
  by simp

lemma split_1_index_1:
  "py_index (split_n c (Suc 0) s) (Suc 0) = Inr x \<Longrightarrow> length x < length s"
  using length_tl_dropWhile [of c s]
  by (auto simp del: length_tl simp: py_index_def split: if_splits)

lemma split_n_nonempty: "split_n c n s \<noteq> []"
  by (cases n) auto

lemma takeWhile_no_sep: "c \<notin> set s \<Longrightarrow> takeWhile (\<lambda>x. x \<noteq> c) s = s"
  by (simp add: takeWhile_eq_all_conv) blast

lemma hd_split_n: "0 < n \<Longrightarrow> hd (split_n c n s) = takeWhile (\<lambda>x. x \<noteq> c) s"
  by (cases n) (auto simp: takeWhile_no_sep)

lemma split_decomp: "c \<in> set s \<Longrightarrow>
   s = takeWhile (\<lambda>x. x \<noteq> c) s @ c # tl (dropWhile (\<lambda>x. x \<noteq> c) s)"
proof -
  assume "c \<in> set s"
  then have ne: "dropWhile (\<lambda>x. x \<noteq> c) s \<noteq> []" by (simp add: dropWhile_eq_Nil_conv)
  then have "hd (dropWhile (\<lambda>x. x \<noteq> c) s) = c"
    using hd_dropWhile [of "\<lambda>x. x \<noteq> c" s] by simp
  with ne have "dropWhile (\<lambda>x. x \<noteq> c) s = c # tl (dropWhile (\<lambda>x. x \<noteq> c) s)"
    by (cases "dropWhile (\<lambda>x. x \<noteq> c) s") simp_all
  then show ?thesis
    using takeWhile_dropWhile_id [of "\<lambda>x. x \<noteq> c" s] by simp
qed

lemma length_join:
  "length (join sep ws) = sum_list (map length ws) + (length ws - 1) * length sep"
  by (induction sep ws rule: join.induct) auto

lemma split_n_total:
  "sum_list (map length (split_n c n s)) + (length (split_n c n s) - 1) = length s"
proof (induction n arbitrary: s)
  case 0
  show ?case by simp
next
  case (Suc n)
  show ?case
  proof (cases "c \<in> set s")
    case False
    then show ?thesis by simp
  next
    case True
    let ?r = "tl (dropWhile (\<lambda>x. x \<noteq> c) s)"
    have "length s = length (takeWhile (\<lambda>x. x \<noteq> c) s) + 1 + length ?r"
      using split_decomp [OF True] by (metis length_append length_Cons Suc_eq_plus1 add.assoc add.commute plus_1_eq_Suc)
    moreover have "length (split_n c n ?r) \<ge> 1"
      using split_n_nonempty [of c n ?r] by (cases "split_n c n ?r") simp_all
    ultimately show ?thesis
      using Suc.IH [of ?r] True by (simp del: length_tl)
  qed
qed

lemma sum_length_tl: "sum_list (map length (tl ws)) \<le> sum_list (map length ws)"
  by (cases ws) simp_all

lemma sum_length_butlast: "sum_list (map length (butlast ws)) \<le> sum_list (map length ws)"
  by (induction ws) simp_all

lemma length_join_middle:
  assumes "s \<noteq> []"
  shows "length (join [c] (butlast (tl (split_on c s)))) < length s"
proof -
  let ?ws = "split_on c s"
  let ?m = "butlast (tl ?ws)"
  have tot: "sum_list (map length ?ws) + (length ?ws - 1) = length s"
    unfolding split_on_def by (rule split_n_total)
  have s1: "sum_list (map length ?m) \<le> sum_list (map length ?ws)"
    using sum_length_butlast [of "tl ?ws"] sum_length_tl [of ?ws] by linarith
  have lm: "length ?m = length ?ws - 2" by simp
  have "length (join [c] ?m) = sum_list (map length ?m) + (length ?m - 1)"
    by (simp add: length_join)
  moreover have "length ?ws \<ge> 1"
    unfolding split_on_def using split_n_nonempty [of c "length s" s]
    by (cases "split_n c (length s) s") simp_all
  moreover have "length ?ws < 2 \<Longrightarrow> sum_list (map length ?m) = 0"
  proof -
    assume "length ?ws < 2"
    then have "length ?m = 0" by simp
    then have "?m = []" by (simp only: length_0_conv)
    then show ?thesis by simp
  qed
  ultimately show ?thesis
    using tot s1 lm assms by (cases "length ?ws \<ge> 2") (simp_all del: length_tl length_butlast)
qed

lemma split_first_sep: "c \<notin> set w \<Longrightarrow> split_n c (Suc 0) (w @ c # x) = [w, x]"
  by (simp add: takeWhile_append2 dropWhile_append2 takeWhile_no_sep [unfolded takeWhile_eq_all_conv])

lemma rsplit_last_sep: "c \<notin> set w \<Longrightarrow> rsplit_n c (Suc 0) (x @ c # w) = [x, w]"
  using split_first_sep [of c "rev w" "rev x"] by (simp add: rsplit_n_def)

lemma first_word_sep: "c \<notin> set w \<Longrightarrow> hd (split_on c (w @ c # x)) = w"
proof -
  assume w: "c \<notin> set w"
  have "hd (split_on c (w @ c # x)) = takeWhile (\<lambda>y. y \<noteq> c) (w @ c # x)"
    unfolding split_on_def by (rule hd_split_n) simp
  also have "\<dots> = w @ takeWhile (\<lambda>y. y \<noteq> c) (c # x)"
    using w by (intro takeWhile_append2) auto
  also have "\<dots> = w" by simp
  finally show ?thesis .
qed

lemma endswithE: "endswith s p \<Longrightarrow> s = take (length s - length p) s @ p"
  unfolding endswith_def by (metis append_take_drop_id)

lemma endswith_append [simp]: "endswith (x @ p) p"
  by (simp add: endswith_def)

lemma startswith_append [simp]: "startswith (p @ x) p"
  by (simp add: startswith_def)

lemma item_check_length:
  assumes "endswith name (c # w)" and "c \<notin> set w"
  shows "length (hd (rsplit_n c (Suc 0) name)) + Suc (length w) = length name"
proof -
  let ?x = "take (length name - length (c # w)) name"
  from assms(1) have n: "name = ?x @ c # w" by (rule endswithE)
  have "rsplit_n c (Suc 0) (?x @ c # w) = [?x, w]"
    using assms(2) by (rule rsplit_last_sep)
  with n have "hd (rsplit_n c (Suc 0) name) = ?x" by simp
  moreover from assms(1) have "length (c # w) \<le> length name" by (simp add: endswith_def)
  ultimately show ?thesis by simp
qed

section \<open>Dynamic attribute fallback (\<open>Config.__getattr__\<close>, uber/config.py)\<close>

text \<open>
  What attribute lookup on the global config object depends on. \<open>attrs\<close> are the
  attributes found by normal lookup (instance attributes set from the config file and
  the values of the class properties); \<open>__getattr__\<close> is only called for a name that
  is not among them. \<open>secret_attrs\<close> are the attributes of \<open>_secret\<close> and
  \<open>secret_section\<close> is \<open>_config['secret']\<close>. \<open>ADMIN_ACCESS_SET\<close> is the value of
  the property \<open>c.ADMIN_ACCESS_SET\<close>, a set of integers, and
  \<open>badge_count_by_type\<close> is the database count of \<open>get_badge_count_by_type\<close>.
  \<open>int_of_str\<close> is Python's \<open>int\<close> on strings (\<open>None\<close> where it raises
  \<open>ValueError\<close>), taken as a parameter.
\<close>

record config_env =
  attrs :: "string \<rightharpoonup> pyval"
  secret_attrs :: "string \<rightharpoonup> pyval"
  secret_section :: "string \<rightharpoonup> pyval"
  ADMIN_ACCESS_SET :: "int list"
  badge_count_by_type :: "pyval \<Rightarrow> int"
  int_of_str :: "string \<Rightarrow> int option"

text \<open>\<open>int(v)\<close>.\<close>

fun py_int :: "(string \<Rightarrow> int option) \<Rightarrow> pyval \<Rightarrow> error + int" where
  "py_int f PNone = Inl TypeError"
| "py_int f (PBool b) = Inr (if b then 1 else 0)"
| "py_int f (PInt i) = Inr i"
| "py_int f (PStr s) = (case f s of None \<Rightarrow> Inl ValueError | Some i \<Rightarrow> Inr i)"
| "py_int f (PDate d) = Inl TypeError"

text \<open>\<open>v in s\<close> for a set \<open>s\<close> of integers: \<open>True\<close> and \<open>False\<close> equal 1 and 0.\<close>

fun py_in_ints :: "pyval \<Rightarrow> int list \<Rightarrow> bool" where
  "py_in_ints (PInt i) xs = (i \<in> set xs)"
| "py_in_ints (PBool b) xs = ((if b then 1 else 0) \<in> set xs)"
| "py_in_ints v xs = False"

text \<open>
  \<open>sa.localized_now() < v\<close> and \<open>sa.localized_now() > v\<close>: a datetime is ordered
  against datetimes only.
\<close>

fun now_lt :: "instant \<Rightarrow> pyval \<Rightarrow> error + pyval" where
  "now_lt now (PDate d) = Inr (PBool (now < d))"
| "now_lt now v = Inl TypeError"

fun now_gt :: "instant \<Rightarrow> pyval \<Rightarrow> error + pyval" where
  "now_gt now (PDate d) = Inr (PBool (now > d))"
| "now_gt now v = Inl TypeError"

text \<open>
  \<open>getattr(obj, name, default)\<close>, given the outcome of \<open>getattr(obj, name)\<close>: only
  an \<open>AttributeError\<close> is replaced by the default.
\<close>

fun getattr_default :: "error + pyval \<Rightarrow> pyval \<Rightarrow> error + pyval" where
  "getattr_default (Inl (AttributeError m)) d = Inr d"
| "getattr_default r d = r"

text \<open>
  \<open>__getattr__(self, name)\<close>, with \<open>now\<close> the value of \<open>sa.localized_now()\<close>.
  Every \<open>getattr(c, x)\<close> inside it is a normal lookup of \<open>x\<close> followed, when that
  finds nothing, by \<open>__getattr__\<close> again. \<open>xs[0]\<close> on the result of a split is
  \<open>hd\<close>, since a split is never empty; \<open>xs[1]\<close> may raise \<open>IndexError\<close>.
  The name passed to a nested lookup is always shorter than \<open>name\<close>.
\<close>

function Config_getattr :: "config_env \<Rightarrow> instant \<Rightarrow> string \<Rightarrow> error + pyval" where
  "Config_getattr e now name =
     (if hd (split_on CHR ''_'' name) = ''BEFORE'' \<or> hd (split_on CHR ''_'' name) = ''AFTER'' then
        (case py_index (split_n CHR ''_'' (Suc 0) name) (Suc 0) of
           Inl err \<Rightarrow> Inl err
         | Inr x \<Rightarrow>
             (case (case attrs e x of Some v \<Rightarrow> Inr v | None \<Rightarrow> Config_getattr e now x) of
                Inl err \<Rightarrow> Inl err
              | Inr date_setting \<Rightarrow>
                  if \<not> truthy date_setting then Inr (PBool False)
                  else if startswith name ''BEFORE_'' then now_lt now date_setting
                  else now_gt now date_setting))
      else if startswith name ''HAS_'' \<and> endswith name ''_ACCESS'' then
        (case (case attrs e (join ''_'' (butlast (tl (split_on CHR ''_'' name)))) of
                 Some v \<Rightarrow> Inr v
               | None \<Rightarrow> Config_getattr e now (join ''_'' (butlast (tl (split_on CHR ''_'' name))))) of
           Inl err \<Rightarrow> Inl err
         | Inr v \<Rightarrow> Inr (PBool (py_in_ints v (ADMIN_ACCESS_SET e))))
      else if endswith name ''_COUNT'' then
        (case getattr_default
                (case attrs e (hd (rsplit_n CHR ''_'' (Suc 0) name)) of
                   Some v \<Rightarrow> Inr v
                 | None \<Rightarrow> Config_getattr e now (hd (rsplit_n CHR ''_'' (Suc 0) name))) PNone of
           Inl err \<Rightarrow> Inl err
         | Inr badge_type \<Rightarrow>
             if truthy badge_type then Inr (PInt (badge_count_by_type e badge_type))
             else Inr PNone)
      else if endswith name ''_AVAILABLE'' then
        (case getattr_default
                (case attrs e (hd (rsplit_n CHR ''_'' (Suc 0) name) @ ''_STOCK'') of
                   Some v \<Rightarrow> Inr v
                 | None \<Rightarrow> Config_getattr e now (hd (rsplit_n CHR ''_'' (Suc 0) name) @ ''_STOCK''))
                PNone of
           Inl err \<Rightarrow> Inl err
         | Inr stock_setting \<Rightarrow>
             if stock_setting = PNone then Inr (PBool True)
             else
               (case getattr_default
                       (case attrs e (hd (rsplit_n CHR ''_'' (Suc 0) name) @ ''_COUNT'') of
                          Some v \<Rightarrow> Inr v
                        | None \<Rightarrow>
                            Config_getattr e now (hd (rsplit_n CHR ''_'' (Suc 0) name) @ ''_COUNT''))
                       PNone of
                  Inl err \<Rightarrow> Inl err
                | Inr count_check \<Rightarrow>
                    if count_check = PNone then Inr (PBool False)
                    else
                      (case py_int (int_of_str e) count_check of
                         Inl err \<Rightarrow> Inl err
                       | Inr count \<Rightarrow>
                           (case py_int (int_of_str e) stock_setting of
                              Inl err \<Rightarrow> Inl err
                            | Inr stock \<Rightarrow> Inr (PBool (count < stock))))))
      else
        (case secret_attrs e name of
           Some v \<Rightarrow> Inr v
         | None \<Rightarrow>
             (case secret_section e (lower name) of
                Some v \<Rightarrow> Inr v
              | None \<Rightarrow> Inl (AttributeError (''no such attribute '' @ name)))))"
  by pat_completeness auto
termination
proof (relation "measure (\<lambda>(e, now, name). length name)")
  show "wf (measure (\<lambda>(e, now, name). length name))" by simp
next
  fix e :: config_env and now :: instant and name x :: string
  assume "py_index (split_n CHR ''_'' (Suc 0) name) (Suc 0) = Inr x"
  then show "((e, now, x), (e, now, name)) \<in> measure (\<lambda>(e, now, name). length name)"
    by (simp add: split_1_index_1)
next
  fix e :: config_env and now :: instant and name :: string
  assume "startswith name ''HAS_'' \<and> endswith name ''_ACCESS''"
  then have "name \<noteq> []" by (auto simp: startswith_def)
  then show "((e, now, join ''_'' (butlast (tl (split_on CHR ''_'' name)))), (e, now, name))
      \<in> measure (\<lambda>(e, now, name). length name)"
    by (simp add: length_join_middle)
next
  fix e :: config_env and now :: instant and name :: string
  assume "endswith name ''_COUNT''"
  then have "length (hd (rsplit_n CHR ''_'' (Suc 0) name)) + Suc (length ''COUNT'') = length name"
    by (rule item_check_length) simp
  then show "((e, now, hd (rsplit_n CHR ''_'' (Suc 0) name)), (e, now, name))
      \<in> measure (\<lambda>(e, now, name). length name)"
    by simp
next
  fix e :: config_env and now :: instant and name :: string
  assume "endswith name ''_AVAILABLE''"
  then have "length (hd (rsplit_n CHR ''_'' (Suc 0) name)) + Suc (length ''AVAILABLE'') = length name"
    by (rule item_check_length) simp
  then show "((e, now, hd (rsplit_n CHR ''_'' (Suc 0) name) @ ''_STOCK''), (e, now, name))
      \<in> measure (\<lambda>(e, now, name). length name)"
    by simp
next
  fix e :: config_env and now :: instant and name :: string
  assume "endswith name ''_AVAILABLE''"
  then have "length (hd (rsplit_n CHR ''_'' (Suc 0) name)) + Suc (length ''AVAILABLE'') = length name"
    by (rule item_check_length) simp
  then show "((e, now, hd (rsplit_n CHR ''_'' (Suc 0) name) @ ''_COUNT''), (e, now, name))
      \<in> measure (\<lambda>(e, now, name). length name)"
    by simp
qed

declare Config_getattr.simps [simp del]

text \<open>\<open>getattr(c, name)\<close>: normal lookup, then the fallback.\<close>

definition py_getattr :: "config_env \<Rightarrow> instant \<Rightarrow> string \<Rightarrow> error + pyval" where
  "py_getattr e now name =
     (case attrs e name of Some v \<Rightarrow> Inr v | None \<Rightarrow> Config_getattr e now name)"

text \<open>A small configuration used as a test input.\<close>

definition demo_env :: config_env where
  "demo_env =
     \<lparr>attrs = [''EPOCH'' \<mapsto> PDate 100, ''PREREG_OPEN'' \<mapsto> PNone,
               ''SUPPORTER_STOCK'' \<mapsto> PInt 5, ''SUPPORTER_COUNT'' \<mapsto> PInt 3,
               ''SHIRT_STOCK'' \<mapsto> PInt 2],
      secret_attrs = Map.empty,
      secret_section = Map.empty,
      ADMIN_ACCESS_SET = [],
      badge_count_by_type = (\<lambda>v. 0),
      int_of_str = (\<lambda>s. None)\<rparr>"

text \<open>A configuration whose stock setting is a string that is not a number.\<close>

definition text_stock_env :: config_env where
  "text_stock_env =
     \<lparr>attrs = [''TICKET_STOCK'' \<mapsto> PStr ''many'', ''TICKET_COUNT'' \<mapsto> PInt 3],
      secret_attrs = Map.empty,
      secret_section = Map.empty,
      ADMIN_ACCESS_SET = [],
      badge_count_by_type = (\<lambda>v. 0),
      int_of_str = (\<lambda>s. None)\<rparr>"

section \<open>API token controller (\<open>Root\<close>, uber/site_sections/api.py)\<close>

text \<open>
  An \<open>ApiToken\<close> row and an \<open>AdminAccount\<close> row, with the columns the controller
  reads and writes. The \<open>id\<close> columns are named \<open>token_id\<close> and \<open>account_id\<close>.
\<close>

record api_token =
  token_id :: string
  admin_account_id :: string
  issued_time :: instant
  revoked_time :: "instant option"

record admin_account =
  account_id :: string
  access_ints :: "int list"

text \<open>
  Modelled from the spec: the database session, an external collaborator of the
  controller (the ORM session class is not in the source at hand). \<open>tokens\<close> are the
  rows of the token table as the session sees them; assigning to an attribute of a
  loaded row changes the row there, and the request wrapper persists the session when
  the handler redirects. \<open>added\<close> are the objects passed to \<open>session.add\<close> and not
  yet committed. \<open>current_admin\<close> is what \<open>session.current_admin_account()\<close> returns.
\<close>

record db_session =
  tokens :: "api_token list"
  added :: "api_token list"
  current_admin :: admin_account

definition session_add :: "api_token \<Rightarrow> db_session \<Rightarrow> db_session" where
  "session_add t s = s\<lparr>added := added s @ [t]\<rparr>"

definition session_commit :: "db_session \<Rightarrow> db_session" where
  "session_commit s = s\<lparr>tokens := tokens s @ added s, added := []\<rparr>"

definition session_rollback :: "db_session \<Rightarrow> db_session" where
  "session_rollback s = s\<lparr>added := []\<rparr>"

text \<open>\<open>session.api_token(id)\<close>: the row with that id; the query raises when there is none.\<close>

definition session_api_token_by_id :: "db_session \<Rightarrow> string \<Rightarrow> error + api_token" where
  "session_api_token_by_id s i =
     (case find (\<lambda>t. token_id t = i) (tokens s) of
        None \<Rightarrow> Inl NoResultFound
      | Some t \<Rightarrow> Inr t)"

text \<open>
  \<open>index(self, session, show_revoked=False, message='', **params)\<close>. \<open>ADMIN\<close> is
  the enum value \<open>c.ADMIN\<close>. The returned dictionary is a record.
\<close>

record index_result =
  message :: string
  admin_account :: admin_account
  api_tokens :: "api_token list"
  show_revoked :: pyval

definition index :: "int \<Rightarrow> db_session \<Rightarrow> pyval \<Rightarrow> string \<Rightarrow> index_result" where
  "index ADMIN session show_revoked' message' =
     (let admin_account' = current_admin session;
          api_tokens' = tokens session;
          api_tokens' = (if ADMIN \<notin> set (access_ints admin_account')
                         then filter (\<lambda>t. admin_account_id t = account_id admin_account') api_tokens'
                         else api_tokens');
          api_tokens' = (if \<not> truthy show_revoked'
                         then filter (\<lambda>t. revoked_time t = None) api_tokens'
                         else api_tokens');
          api_tokens' = sort_key issued_time api_tokens'
      in \<lparr>message = message', admin_account = admin_account',
          api_tokens = api_tokens', show_revoked = show_revoked'\<rparr>)"

text \<open>
  \<open>create_api_token(self, session, **params)\<close>. \<open>method\<close> is
  \<open>cherrypy.request.method\<close> and \<open>account\<close> is \<open>cherrypy.session['account_id']\<close>.
  Two helpers of the repository that are not in the source at hand are parameters:
  \<open>api_token_of\<close>, the model constructor \<open>session.api_token(params)\<close>, and
  \<open>check\<close>, the validator, which returns the empty string for a valid object.
  The result is the returned dictionary, \<open>{'result': id}\<close> or \<open>{'error': message}\<close>,
  with the session after the call.
\<close>

datatype ajax_result = Result string | Error string

definition create_api_token ::
  "((string \<rightharpoonup> pyval) \<Rightarrow> api_token) \<Rightarrow> (api_token \<Rightarrow> string) \<Rightarrow> string \<Rightarrow> string \<Rightarrow>
     db_session \<Rightarrow> (string \<rightharpoonup> pyval) \<Rightarrow> ajax_result \<times> db_session" where
  "create_api_token api_token_of check method account session params =
     (if method = ''POST'' then
        (let params = params(''admin_account_id'' \<mapsto> PStr account);
             api_token = api_token_of params;
             message = check api_token
         in if message = [] then
              (Result (token_id api_token), session_commit (session_add api_token session))
            else
              (Error message, session_rollback session))
      else (Error ''POST required'', session))"

text \<open>
  \<open>revoke_api_token(self, session, id=None)\<close>. The handler always leaves by raising
  \<open>HTTPRedirect\<close>; the redirect target is the result, next to the session. \<open>utcnow\<close> is
  the value of \<open>datetime.utcnow().replace(tzinfo=pytz.UTC)\<close>. \<open>not id\<close> holds for
  \<open>None\<close> and for the empty string. A failing lookup propagates its exception.
\<close>

datatype redirect = HTTPRedirect string

definition revoke_api_token ::
  "string \<Rightarrow> instant \<Rightarrow> db_session \<Rightarrow> string option \<Rightarrow> error + (redirect \<times> db_session)" where
  "revoke_api_token method utcnow session id' =
     (case id' of
        None \<Rightarrow> Inr (HTTPRedirect ''index'', session)
      | Some i \<Rightarrow>
          if i = [] \<or> \<not> method = ''POST'' then Inr (HTTPRedirect ''index'', session)
          else
            (case session_api_token_by_id session i of
               Inl e \<Rightarrow> Inl e
             | Inr api_token \<Rightarrow>
                 Inr (HTTPRedirect ''index?message=Successfully revoked API token'',
                      session\<lparr>tokens := map (\<lambda>t. if token_id t = token_id api_token
                                                  then t\<lparr>revoked_time := Some utcnow\<rparr> else t)
                                           (tokens session)\<rparr>)))"

text \<open>A small token table used as a test input.\<close>

definition demo_session :: db_session where
  "demo_session =
     \<lparr>tokens = [\<lparr>token_id = ''t1'', admin_account_id = ''alice'', issued_time = 3, revoked_time = None\<rparr>,
                \<lparr>token_id = ''t2'', admin_account_id = ''bob'', issued_time = 1, revoked_time = None\<rparr>,
                \<lparr>token_id = ''t3'', admin_account_id = ''alice'', issued_time = 2, revoked_time = Some 5\<rparr>],
      added = [],
      current_admin = \<lparr>account_id = ''alice'', access_ints = [7]\<rparr>\<rparr>"

definition demo_token_of :: "(string \<rightharpoonup> pyval) \<Rightarrow> api_token" where
  "demo_token_of params =
     \<lparr>token_id = ''t4'',
      admin_account_id = (case params ''admin_account_id'' of Some (PStr a) \<Rightarrow> a | _ \<Rightarrow> []),
      issued_time = 9, revoked_time = None\<rparr>"

definition demo_check :: "api_token \<Rightarrow> string" where
  "demo_check t = (if admin_account_id t = ''alice'' then [] else ''Unknown account'')"

section \<open>Enum values (\<open>_Overridable.create_enum_val\<close>, uber/config.py)\<close>

text \<open>
  \<open>int(s, 16)\<close> on a string of hexadecimal digits, most significant digit first.
  Python accepts a few more forms (a sign, a \<open>0x\<close> prefix, underscores, blanks
  around the number); none of them occurs in a digest, and they are \<open>ValueError\<close>
  here, like every other string that is not a number in base 16.
\<close>

definition hex_digit :: "char \<Rightarrow> int option" where
  "hex_digit ch =
     map_of [(CHR ''0'', 0), (CHR ''1'', 1), (CHR ''2'', 2), (CHR ''3'', 3), (CHR ''4'', 4),
             (CHR ''5'', 5), (CHR ''6'', 6), (CHR ''7'', 7), (CHR ''8'', 8), (CHR ''9'', 9),
             (CHR ''a'', 10), (CHR ''b'', 11), (CHR ''c'', 12), (CHR ''d'', 13),
             (CHR ''e'', 14), (CHR ''f'', 15),
             (CHR ''A'', 10), (CHR ''B'', 11), (CHR ''C'', 12), (CHR ''D'', 13),
             (CHR ''E'', 14), (CHR ''F'', 15)] ch"

fun int_base16_from :: "int \<Rightarrow> string \<Rightarrow> error + int" where
  "int_base16_from acc [] = Inr acc"
| "int_base16_from acc (ch # s) =
     (case hex_digit ch of
        None \<Rightarrow> Inl ValueError
      | Some d \<Rightarrow> int_base16_from (16 * acc + d) s)"

definition int_base16 :: "string \<Rightarrow> error + int" where
  "int_base16 s = (if s = [] then Inl ValueError else int_base16_from 0 s)"

text \<open>
  \<open>create_enum_val(self, name)\<close>. \<open>sha512_hexdigest\<close> stands for
  \<open>sha512(b).hexdigest()\<close> of the standard library and is a parameter; a name is
  already a string of bytes here, so \<open>encode()\<close> leaves it as it is. The method sets
  the attribute \<open>name.upper()\<close> and returns the value: the result is the value with
  the attributes after the call.
\<close>

definition create_enum_val ::
  "(string \<Rightarrow> string) \<Rightarrow> (string \<rightharpoonup> pyval) \<Rightarrow> string \<Rightarrow> error + (int \<times> (string \<rightharpoonup> pyval))" where
  "create_enum_val sha512_hexdigest attributes name =
     (case int_base16 (take 7 (sha512_hexdigest (upper name))) of
        Inl err \<Rightarrow> Inl err
      | Inr val \<Rightarrow> Inr (val, attributes(upper name \<mapsto> PInt val)))"

text \<open>
  What is known of a hexadecimal SHA-512 digest: 128 characters, each a lower-case
  hexadecimal digit.
\<close>

definition is_hexdigest :: "string \<Rightarrow> bool" where
  "is_hexdigest h \<longleftrightarrow> length h = 128 \<and> set h \<subseteq> set ''0123456789abcdef''"

text \<open>A stand-in digest function used as a test input.\<close>

definition demo_digest :: "string \<Rightarrow> string" where
  "demo_digest s = replicate 128 (if s = ''STRIPE'' then CHR ''a'' else CHR ''1'')"

section \<open>Dates (\<open>_Overridable.make_dates\<close>, uber/config.py)\<close>

text \<open>
  In \<open>make_dates\<close> the fields of a datetime matter: a naive datetime is the record of
  its fields (seconds are always zero here), and \<open>EVENT_TIMEZONE.localize\<close> attaches
  the time zone, named by a string, without changing the fields.
\<close>

record naive_datetime =
  year :: nat
  month :: nat
  day :: nat
  hour :: nat
  minute :: nat

record localized_datetime = naive_datetime +
  tzinfo :: string

definition localize :: "string \<Rightarrow> naive_datetime \<Rightarrow> localized_datetime" where
  "localize tz dt =
     \<lparr>year = year dt, month = month dt, day = day dt, hour = hour dt, minute = minute dt,
      tzinfo = tz\<rparr>"

subsection \<open>The two formats of \<open>datetime.strptime\<close>\<close>

text \<open>
  \<open>datetime.strptime\<close> belongs to the standard library. It turns the format into a
  regular expression, matches it at the start of the string, refuses a match that
  leaves characters over, and builds the datetime from the matched fields, which
  refuses a day that the month does not have. The model follows this for the
  directives of the two formats used: \<open>%Y\<close> is \<open>\d\d\d\d\<close>, \<open>%m\<close> is
  \<open>1[0-2]|0[1-9]|[1-9]\<close>, \<open>%d\<close> is \<open>3[0-1]|[1-2]\d|0[1-9]|[1-9]| [1-9]\<close>,
  \<open>%H\<close> is \<open>2[0-3]|[0-1]\d|\d\<close>, \<open>%M\<close> is \<open>[0-5]\d|\d\<close>, and a blank in the
  format is \<open>\s+\<close>. A matcher returns the ways in which it can match a prefix of
  the string, each with the value read and the rest of the string, in the order in
  which a backtracking matcher tries them; \<open>re_then\<close> puts one matcher after
  another. The first complete way is the match. Date strings are ASCII.
\<close>

definition digit_value :: "char \<Rightarrow> nat option" where
  "digit_value ch =
     map_of [(CHR ''0'', 0), (CHR ''1'', 1), (CHR ''2'', 2), (CHR ''3'', 3), (CHR ''4'', 4),
             (CHR ''5'', 5), (CHR ''6'', 6), (CHR ''7'', 7), (CHR ''8'', 8), (CHR ''9'', 9)] ch"

definition is_space :: "char \<Rightarrow> bool" where
  "is_space ch \<longleftrightarrow>
     ch \<in> set [CHR '' '', CHR 0x09, CHR 0x0A, CHR 0x0B, CHR 0x0C, CHR 0x0D,
               CHR 0x1C, CHR 0x1D, CHR 0x1E, CHR 0x1F]"

definition re_then ::
  "(string \<Rightarrow> ('a \<times> string) list) \<Rightarrow> ('a \<Rightarrow> string \<Rightarrow> ('b \<times> string) list) \<Rightarrow>
     string \<Rightarrow> ('b \<times> string) list" where
  "re_then p q s = concat (map (\<lambda>(a, r). q a r) (p s))"

definition re_return :: "'a \<Rightarrow> string \<Rightarrow> ('a \<times> string) list" where
  "re_return v s = [(v, s)]"

definition re_digit :: "nat \<Rightarrow> nat \<Rightarrow> string \<Rightarrow> (nat \<times> string) list" where
  "re_digit lo hi s =
     (case s of
        [] \<Rightarrow> []
      | ch # r \<Rightarrow>
          (case digit_value ch of
             None \<Rightarrow> []
           | Some v \<Rightarrow> if lo \<le> v \<and> v \<le> hi then [(v, r)] else []))"

definition re_two_digits :: "nat \<Rightarrow> nat \<Rightarrow> nat \<Rightarrow> nat \<Rightarrow> string \<Rightarrow> (nat \<times> string) list" where
  "re_two_digits lo1 hi1 lo2 hi2 =
     re_then (re_digit lo1 hi1) (\<lambda>a. re_then (re_digit lo2 hi2) (\<lambda>b. re_return (10 * a + b)))"

definition re_char :: "char \<Rightarrow> string \<Rightarrow> (unit \<times> string) list" where
  "re_char c s = (case s of [] \<Rightarrow> [] | ch # r \<Rightarrow> if ch = c then [((), r)] else [])"

definition re_spaces :: "string \<Rightarrow> (unit \<times> string) list" where
  "re_spaces s = map (\<lambda>k. ((), drop k s)) (rev [1..<Suc (length (takeWhile is_space s))])"

definition re_Y :: "string \<Rightarrow> (nat \<times> string) list" where
  "re_Y =
     re_then (re_two_digits 0 9 0 9)
       (\<lambda>ab. re_then (re_two_digits 0 9 0 9) (\<lambda>cd. re_return (100 * ab + cd)))"

definition re_m :: "string \<Rightarrow> (nat \<times> string) list" where
  "re_m s = re_two_digits 1 1 0 2 s @ re_two_digits 0 0 1 9 s @ re_digit 1 9 s"

definition re_d :: "string \<Rightarrow> (nat \<times> string) list" where
  "re_d s =
     re_two_digits 3 3 0 1 s @ re_two_digits 1 2 0 9 s @ re_two_digits 0 0 1 9 s
       @ re_digit 1 9 s @ re_then (re_char CHR '' '') (\<lambda>u. re_digit 1 9) s"

definition re_H :: "string \<Rightarrow> (nat \<times> string) list" where
  "re_H s = re_two_digits 2 2 0 3 s @ re_two_digits 0 1 0 9 s @ re_digit 0 9 s"

definition re_M :: "string \<Rightarrow> (nat \<times> string) list" where
  "re_M s = re_two_digits 0 5 0 9 s @ re_digit 0 9 s"

text \<open>The regular expressions of \<open>'%Y-%m-%d'\<close>, \<open>'%Y-%m-%d %H'\<close> and \<open>'%Y-%m-%d %H:%M'\<close>.\<close>

definition re_Ymd :: "string \<Rightarrow> ((nat \<times> nat \<times> nat) \<times> string) list" where
  "re_Ymd =
     re_then re_Y (\<lambda>Y.
     re_then (re_char CHR ''-'') (\<lambda>u.
     re_then re_m (\<lambda>m.
     re_then (re_char CHR ''-'') (\<lambda>u.
     re_then re_d (\<lambda>d.
     re_return (Y, m, d))))))"

definition re_Ymd_H :: "string \<Rightarrow> ((nat \<times> nat \<times> nat \<times> nat \<times> nat) \<times> string) list" where
  "re_Ymd_H =
     re_then re_Ymd (\<lambda>Ymd.
     re_then re_spaces (\<lambda>u.
     re_then re_H (\<lambda>H.
     re_return (fst Ymd, fst (snd Ymd), snd (snd Ymd), H, 0))))"

definition re_Ymd_HM :: "string \<Rightarrow> ((nat \<times> nat \<times> nat \<times> nat \<times> nat) \<times> string) list" where
  "re_Ymd_HM =
     re_then re_Ymd (\<lambda>Ymd.
     re_then re_spaces (\<lambda>u.
     re_then re_H (\<lambda>H.
     re_then (re_char CHR '':'') (\<lambda>u.
     re_then re_M (\<lambda>M.
     re_return (fst Ymd, fst (snd Ymd), snd (snd Ymd), H, M))))))"

text \<open>The constructor \<open>datetime(Y, m, d, H, M)\<close> with its range checks.\<close>

definition is_leap :: "nat \<Rightarrow> bool" where
  "is_leap Y \<longleftrightarrow> Y mod 4 = 0 \<and> (Y mod 100 \<noteq> 0 \<or> Y mod 400 = 0)"

definition days_in_month :: "nat \<Rightarrow> nat \<Rightarrow> nat" where
  "days_in_month Y m =
     (if m = 2 then (if is_leap Y then 29 else 28)
      else if m = 4 \<or> m = 6 \<or> m = 9 \<or> m = 11 then 30
      else 31)"

definition py_datetime :: "nat \<Rightarrow> nat \<Rightarrow> nat \<Rightarrow> nat \<Rightarrow> nat \<Rightarrow> error + naive_datetime" where
  "py_datetime Y m d H M =
     (if 1 \<le> Y \<and> Y \<le> 9999 \<and> 1 \<le> m \<and> m \<le> 12 \<and> 1 \<le> d \<and> d \<le> days_in_month Y m
         \<and> H \<le> 23 \<and> M \<le> 59
      then Inr \<lparr>year = Y, month = m, day = d, hour = H, minute = M\<rparr>
      else Inl ValueError)"

text \<open>
  From the ways to match to the result: no match and a match that leaves characters
  over are both \<open>ValueError\<close>.
\<close>

definition strptime_result ::
  "((nat \<times> nat \<times> nat \<times> nat \<times> nat) \<times> string) list \<Rightarrow> error + naive_datetime" where
  "strptime_result ms =
     (case ms of
        [] \<Rightarrow> Inl ValueError
      | ((Y, m, d, H, M), r) # _ \<Rightarrow> if r \<noteq> [] then Inl ValueError else py_datetime Y m d H M)"

definition strptime_Ymd_H :: "string \<Rightarrow> error + naive_datetime" where
  "strptime_Ymd_H s = strptime_result (re_Ymd_H s)"

definition strptime_Ymd_HM :: "string \<Rightarrow> error + naive_datetime" where
  "strptime_Ymd_HM s = strptime_result (re_Ymd_HM s)"

subsection \<open>\<open>make_dates\<close>\<close>

text \<open>
  The value \<open>_dt\<close> that one round of the loop computes from the string \<open>_val\<close>;
  \<open>tz\<close> is \<open>self.EVENT_TIMEZONE\<close>.
\<close>

definition parse_date_setting :: "string \<Rightarrow> string \<Rightarrow> error + localized_datetime option" where
  "parse_date_setting tz val =
     (if val = [] then Inr None
      else if CHR '' '' \<in> set val then
        (case strptime_Ymd_H val of
           Inl err \<Rightarrow> Inl err
         | Inr dt \<Rightarrow> Inr (Some (localize tz dt)))
      else
        (case strptime_Ymd_HM (val @ '' 23:59'') of
           Inl err \<Rightarrow> Inl err
         | Inr dt \<Rightarrow> Inr (Some (localize tz dt))))"

text \<open>
  The loop over the items of the config section. It sets the attribute
  \<open>_opt.upper()\<close> to \<open>_dt\<close> and, when \<open>_dt\<close> is a datetime, enters it in
  \<open>DATES\<close>; an exception of \<open>strptime\<close> ends the loop.
\<close>

record dates_state =
  date_attrs :: "string \<rightharpoonup> localized_datetime option"
  DATES :: "string \<rightharpoonup> localized_datetime"

fun make_dates :: "string \<Rightarrow> (string \<times> string) list \<Rightarrow> dates_state \<Rightarrow> error + dates_state" where
  "make_dates tz [] st = Inr st"
| "make_dates tz ((opt, val) # items) st =
     (case parse_date_setting tz val of
        Inl err \<Rightarrow> Inl err
      | Inr dt \<Rightarrow>
          make_dates tz items
            (st\<lparr>date_attrs := (date_attrs st)(upper opt \<mapsto> dt),
                DATES := (case dt of None \<Rightarrow> DATES st | Some d \<Rightarrow> (DATES st)(upper opt \<mapsto> d))\<rparr>))"

text \<open>
  The vocabulary of the statements about dates: \<open>is_number w v\<close> says that \<open>w\<close> is
  a non-empty string of decimal digits that writes \<open>v\<close>; \<open>date_text s Y m d\<close> says
  that \<open>s\<close> is a year, a month and a day written with \<open>-\<close> between them (the
  day may be written with a blank in front, as \<open>%d\<close> allows).
\<close>

definition number :: "string \<Rightarrow> nat" where
  "number w = foldl (\<lambda>a ch. 10 * a + (case digit_value ch of Some v \<Rightarrow> v | None \<Rightarrow> 0)) 0 w"

definition is_number :: "string \<Rightarrow> nat \<Rightarrow> bool" where
  "is_number w v \<longleftrightarrow> w \<noteq> [] \<and> list_all (\<lambda>ch. digit_value ch \<noteq> None) w \<and> number w = v"


section \<open>Properties of the attendee badge price\<close>

subsection \<open>The two loops in closed form\<close>

lemma apply_price_bumps_Nil [simp]: "apply_price_bumps t [] p = p"
  by (simp add: apply_price_bumps_def)

lemma apply_price_bumps_Cons [simp]:
  "apply_price_bumps t (x # xs) p = apply_price_bumps t xs (if fst x \<le> t then snd x else p)"
  by (simp add: apply_price_bumps_def case_prod_beta)

lemma apply_price_limits_Nil [simp]: "apply_price_limits n [] p = p"
  by (simp add: apply_price_limits_def)

lemma apply_price_limits_Cons [simp]:
  "apply_price_limits n (x # xs) p =
     apply_price_limits n xs (if fst x \<le> n \<and> p < snd x then snd x else p)"
  by (simp add: apply_price_limits_def case_prod_beta)

lemma apply_price_bumps_last:
  "apply_price_bumps t xs p =
     (case filter (\<lambda>(day, bumped_price). day \<le> t) xs of [] \<Rightarrow> p | ys \<Rightarrow> snd (last ys))"
proof (induction xs arbitrary: p)
  case Nil
  show ?case by simp
next
  case (Cons x xs)
  obtain day bp where x: "x = (day, bp)" by (cases x)
  show ?case
    by (cases "filter (\<lambda>(day, bumped_price). day \<le> t) xs") (simp_all add: Cons.IH x)
qed

lemma apply_price_limits_fold_max:
  "apply_price_limits n xs p = fold max (map snd (filter (\<lambda>(cap, bp). cap \<le> n) xs)) p"
proof (induction xs arbitrary: p)
  case Nil
  show ?case by simp
next
  case (Cons x xs)
  obtain cap bp where x: "x = (cap, bp)" by (cases x)
  have "(if p < bp then bp else p) = max bp p"
    by (simp add: max_def)
  then show ?case
    by (simp add: Cons.IH x)
qed

lemma apply_price_limits_Max:
  "apply_price_limits n xs p = Max (set (p # map snd (filter (\<lambda>(cap, bp). cap \<le> n) xs)))"
  by (simp only: apply_price_limits_fold_max Max.set_eq_fold)

lemma sorted_fst_sort: "sorted (map fst (sort (xs :: ('a::linorder \<times> 'b::linorder) list)))"
proof -
  have "sorted (sort xs)" by simp
  then have "sorted_wrt (\<lambda>x y. fst x \<le> fst y) (sort xs)"
    by (rule sorted_wrt_mono_rel [rotated]) (auto simp: less_eq_prod_def)
  then show ?thesis by (simp add: sorted_wrt_map)
qed

lemma apply_price_bumps_none:
  "\<forall>x \<in> set xs. t < fst x \<Longrightarrow> apply_price_bumps t xs p = p"
  by (induction xs arbitrary: p) auto

lemma apply_price_bumps_ge:
  "sorted (p # map snd xs) \<Longrightarrow> p \<le> apply_price_bumps t xs p"
proof (induction xs arbitrary: p)
  case Nil
  show ?case by simp
next
  case (Cons x xs)
  from Cons.prems have a: "p \<le> snd x" and b: "sorted (snd x # map snd xs)" and c: "sorted (p # map snd xs)"
    by auto
  show ?case
    using Cons.IH [OF b] Cons.IH [OF c] a by auto
qed

lemma apply_price_bumps_mono:
  "t1 \<le> t2 \<Longrightarrow> sorted (map fst xs) \<Longrightarrow> sorted (p # map snd xs) \<Longrightarrow>
     apply_price_bumps t1 xs p \<le> apply_price_bumps t2 xs p"
proof (induction xs arbitrary: p)
  case Nil
  show ?case by simp
next
  case (Cons x xs)
  from Cons.prems have a: "p \<le> snd x" and b: "sorted (snd x # map snd xs)"
    and c: "sorted (p # map snd xs)" and d: "sorted (map fst xs)" and e: "\<forall>y \<in> set xs. fst x \<le> fst y"
    by auto
  consider "fst x \<le> t1" | "t2 < fst x" | "t1 < fst x" "fst x \<le> t2" by linarith
  then show ?case
  proof cases
    case 1
    with Cons.prems(1) Cons.IH [OF Cons.prems(1) d b] show ?thesis by simp
  next
    case 2
    with Cons.prems(1) Cons.IH [OF Cons.prems(1) d c] show ?thesis by simp
  next
    case 3
    from 3(1) e have "\<forall>y \<in> set xs. t1 < fst y" by fastforce
    then have "apply_price_bumps t1 xs p = p" by (rule apply_price_bumps_none)
    moreover have "snd x \<le> apply_price_bumps t2 xs (snd x)" using b by (rule apply_price_bumps_ge)
    ultimately show ?thesis using 3 a by simp
  qed
qed

lemma apply_price_limits_mono:
  "p \<le> q \<Longrightarrow> apply_price_limits n xs p \<le> apply_price_limits n xs q"
  by (induction xs arbitrary: p q) auto

lemma apply_price_limits_ge: "p \<le> apply_price_limits n xs p"
  by (induction xs arbitrary: p) (auto intro: order_trans less_imp_le)

lemma limits_sorted_eq:
  "apply_price_limits (BADGES_SOLD c) (sort (PRICE_LIMITS c)) p = highest_applicable_limit c p"
proof -
  have "set (map snd (filter (\<lambda>(cap, bp). cap \<le> BADGES_SOLD c) (sort (PRICE_LIMITS c)))) =
        set (map snd (filter (\<lambda>(cap, bp). cap \<le> BADGES_SOLD c) (PRICE_LIMITS c)))"
    by simp
  then show ?thesis
    unfolding apply_price_limits_Max highest_applicable_limit_def by (simp only: list.set)
qed

lemma bumps_sorted_eq:
  "apply_price_bumps t (sort (PRICE_BUMPS c)) (INITIAL_ATTENDEE c) = last_applicable_bump c t"
  by (simp only: apply_price_bumps_last last_applicable_bump_def)

lemma highest_applicable_limit_ge: "p \<le> highest_applicable_limit c p"
  by (simp add: highest_applicable_limit_def)

text \<open>
  Claim C2. \<open>get_attendee_price\<close> computes the price rule of the specification: it
  starts from \<open>INITIAL_ATTENDEE\<close>; when price bumps are enabled it takes the price of
  the last bump, in ascending date order, whose date is at or before the evaluation
  time; and when the limits are checked (no explicit \<open>dt\<close>, hardcore optimizations
  off, the current time before \<open>EPOCH\<close>) it takes the highest price among the limits
  whose badge cap has been reached, which never lowers the price.
\<close>

theorem get_attendee_price_rule:
  "get_attendee_price c now dt = attendee_price_rule c now dt
   \<and> last_applicable_bump c t \<le> highest_applicable_limit c (last_applicable_bump c t)"
  by (simp add: get_attendee_price_def attendee_price_rule_def limits_checked_def
      bumps_sorted_eq limits_sorted_eq highest_applicable_limit_ge Let_def)

theorem get_attendee_price_rule_witness:
  "get_attendee_price limit_config 25 None = 60
   \<and> get_attendee_price limit_config 25 (Some 15) = 45
   \<and> get_attendee_price limit_config 30 None = 50"
  using get_attendee_price_rule [of limit_config 25 None]
    get_attendee_price_rule [of limit_config 25 "Some 15"]
    get_attendee_price_rule [of limit_config 30 None]
  by (simp add: attendee_price_rule_def limit_config_def limits_checked_def
      highest_applicable_limit_def last_applicable_bump_def)

text \<open>
  Claim C1, as amended. With no explicit \<open>dt\<close>, the price at a later current time
  is at least the price at an earlier one, provided that the bump prices taken in
  ascending date order, after \<open>INITIAL_ATTENDEE\<close>, never fall, and that the price
  limits are checked at both instants or at neither (the check is dropped once the
  current time reaches \<open>EPOCH\<close>).
\<close>

theorem get_attendee_price_mono:
  assumes "t1 \<le> t2"
    and "sorted (INITIAL_ATTENDEE c # map snd (sort (PRICE_BUMPS c)))"
    and "limits_checked c t1 None = limits_checked c t2 None"
  shows "get_attendee_price c t1 None \<le> get_attendee_price c t2 None"
proof -
  let ?b1 = "apply_price_bumps t1 (sort (PRICE_BUMPS c)) (INITIAL_ATTENDEE c)"
  let ?b2 = "apply_price_bumps t2 (sort (PRICE_BUMPS c)) (INITIAL_ATTENDEE c)"
  have b: "?b1 \<le> ?b2"
    using assms(1) sorted_fst_sort assms(2) by (rule apply_price_bumps_mono)
  then have "apply_price_limits (BADGES_SOLD c) (sort (PRICE_LIMITS c)) ?b1
      \<le> apply_price_limits (BADGES_SOLD c) (sort (PRICE_LIMITS c)) ?b2"
    by (rule apply_price_limits_mono)
  with b assms(3) show ?thesis
    by (simp add: get_attendee_price_def limits_checked_def Let_def)
qed

theorem get_attendee_price_mono_witness:
  "get_attendee_price limit_config 15 None \<le> get_attendee_price limit_config 25 None"
  using get_attendee_price_mono [of 15 25 limit_config]
  by (simp add: limit_config_def limits_checked_def)

text \<open>
  Claim C1 as stated fails: the limit escalation is dropped when the current time
  reaches \<open>EPOCH\<close>, and a later bump may carry a lower price than an earlier one
  or than the initial price.
\<close>

theorem get_attendee_price_not_mono:
  "\<not> get_attendee_price limit_config 25 None \<le> get_attendee_price limit_config 30 None
   \<and> \<not> get_attendee_price falling_bump_config 5 None \<le> get_attendee_price falling_bump_config 10 None"
  by (simp add: get_attendee_price_def limit_config_def falling_bump_config_def)

section \<open>Properties of the dynamic attribute fallback\<close>

subsection \<open>The \<open>BEFORE_\<close> and \<open>AFTER_\<close> names\<close>

lemma before_first_word: "hd (split_on CHR ''_'' (''BEFORE_'' @ X)) = ''BEFORE''"
  using first_word_sep [of "CHR ''_''" "''BEFORE''" X] by simp

lemma after_first_word: "hd (split_on CHR ''_'' (''AFTER_'' @ X)) = ''AFTER''"
  using first_word_sep [of "CHR ''_''" "''AFTER''" X] by simp

lemma before_rest: "py_index (split_n CHR ''_'' (Suc 0) (''BEFORE_'' @ X)) (Suc 0) = Inr X"
  using split_first_sep [of "CHR ''_''" "''BEFORE''" X] by (simp add: py_index_def)

lemma after_rest: "py_index (split_n CHR ''_'' (Suc 0) (''AFTER_'' @ X)) (Suc 0) = Inr X"
  using split_first_sep [of "CHR ''_''" "''AFTER''" X] by (simp add: py_index_def)

lemma getattr_BEFORE:
  "Config_getattr e now (''BEFORE_'' @ X) =
     (case py_getattr e now X of
        Inl err \<Rightarrow> Inl err
      | Inr date_setting \<Rightarrow>
          if \<not> truthy date_setting then Inr (PBool False) else now_lt now date_setting)"
proof -
  have s: "startswith (''BEFORE_'' @ X) ''BEFORE_''" by (rule startswith_append)
  show ?thesis
    by (subst Config_getattr.simps)
       (simp only: before_first_word before_rest s py_getattr_def simp_thms if_True sum.case)
qed

lemma getattr_AFTER:
  "Config_getattr e now (''AFTER_'' @ X) =
     (case py_getattr e now X of
        Inl err \<Rightarrow> Inl err
      | Inr date_setting \<Rightarrow>
          if \<not> truthy date_setting then Inr (PBool False) else now_gt now date_setting)"
proof -
  have s: "\<not> startswith (''AFTER_'' @ X) ''BEFORE_''" by (simp add: startswith_def)
  show ?thesis
    by (subst Config_getattr.simps)
       (simp only: after_first_word after_rest s py_getattr_def simp_thms if_True if_False sum.case)
qed

lemma now_lt_gt_exclusive:
  "\<not> (now_lt now d = Inr (PBool True) \<and> now_gt now d = Inr (PBool True))"
  by (cases d) auto

text \<open>
  Claim C10. For every name \<open>X\<close>: when the setting \<open>X\<close> resolves to a falsy value,
  the fallback gives \<open>False\<close> for both \<open>BEFORE_X\<close> and \<open>AFTER_X\<close>; when \<open>X\<close>
  resolves to a date equal to the current instant, both are \<open>False\<close> as well, the
  two comparisons being strict; and at no instant are \<open>BEFORE_X\<close> and \<open>AFTER_X\<close>
  both \<open>True\<close>.
\<close>

theorem before_after_exclusive:
  "(\<forall>v. py_getattr e now X = Inr v \<and> \<not> truthy v \<longrightarrow>
        Config_getattr e now (''BEFORE_'' @ X) = Inr (PBool False)
      \<and> Config_getattr e now (''AFTER_'' @ X) = Inr (PBool False))
   \<and> (py_getattr e now X = Inr (PDate now) \<longrightarrow>
        Config_getattr e now (''BEFORE_'' @ X) = Inr (PBool False)
      \<and> Config_getattr e now (''AFTER_'' @ X) = Inr (PBool False))
   \<and> \<not> (Config_getattr e now (''BEFORE_'' @ X) = Inr (PBool True)
        \<and> Config_getattr e now (''AFTER_'' @ X) = Inr (PBool True))"
  unfolding getattr_BEFORE getattr_AFTER
proof (intro conjI allI impI)
  fix v assume "py_getattr e now X = Inr v \<and> \<not> truthy v"
  then show "(case py_getattr e now X of Inl err \<Rightarrow> Inl err
      | Inr d \<Rightarrow> if \<not> truthy d then Inr (PBool False) else now_lt now d) = Inr (PBool False)"
    and "(case py_getattr e now X of Inl err \<Rightarrow> Inl err
      | Inr d \<Rightarrow> if \<not> truthy d then Inr (PBool False) else now_gt now d) = Inr (PBool False)"
    by simp_all
next
  assume "py_getattr e now X = Inr (PDate now)"
  then show "(case py_getattr e now X of Inl err \<Rightarrow> Inl err
      | Inr d \<Rightarrow> if \<not> truthy d then Inr (PBool False) else now_lt now d) = Inr (PBool False)"
    and "(case py_getattr e now X of Inl err \<Rightarrow> Inl err
      | Inr d \<Rightarrow> if \<not> truthy d then Inr (PBool False) else now_gt now d) = Inr (PBool False)"
    by simp_all
next
  show "\<not> ((case py_getattr e now X of Inl err \<Rightarrow> Inl err
      | Inr d \<Rightarrow> if \<not> truthy d then Inr (PBool False) else now_lt now d) = Inr (PBool True)
    \<and> (case py_getattr e now X of Inl err \<Rightarrow> Inl err
      | Inr d \<Rightarrow> if \<not> truthy d then Inr (PBool False) else now_gt now d) = Inr (PBool True))"
  proof (cases "py_getattr e now X")
    case (Inl err)
    then show ?thesis by simp
  next
    case (Inr d)
    then show ?thesis
      using now_lt_gt_exclusive [of now d] by (cases "truthy d") simp_all
  qed
qed

theorem before_after_exclusive_witness:
  "Config_getattr demo_env 100 ''BEFORE_EPOCH'' = Inr (PBool False)
   \<and> Config_getattr demo_env 100 ''AFTER_EPOCH'' = Inr (PBool False)
   \<and> Config_getattr demo_env 100 ''BEFORE_PREREG_OPEN'' = Inr (PBool False)
   \<and> Config_getattr demo_env 100 ''AFTER_PREREG_OPEN'' = Inr (PBool False)"
  using before_after_exclusive [of demo_env 100 "''EPOCH''"]
    before_after_exclusive [of demo_env 100 "''PREREG_OPEN''"]
  by (simp add: py_getattr_def demo_env_def)

subsection \<open>The \<open>_AVAILABLE\<close> names\<close>

lemma endswith_last: "endswith s q \<Longrightarrow> q \<noteq> [] \<Longrightarrow> last s = last q"
proof -
  assume "endswith s q" and q: "q \<noteq> []"
  then have "s = take (length s - length q) s @ q" by (intro endswithE)
  then have "last s = last (take (length s - length q) s @ q)" by simp
  also have "\<dots> = last q" using q by (rule last_appendR)
  finally show ?thesis .
qed

lemma first_word_suffix:
  "hd (split_on CHR ''_'' (X @ CHR ''_'' # r)) = takeWhile (\<lambda>x. x \<noteq> CHR ''_'') X"
proof -
  have "hd (split_on CHR ''_'' (X @ CHR ''_'' # r)) = takeWhile (\<lambda>x. x \<noteq> CHR ''_'') (X @ CHR ''_'' # r)"
    unfolding split_on_def by (rule hd_split_n) simp
  also have "\<dots> = takeWhile (\<lambda>x. x \<noteq> CHR ''_'') X"
  proof (cases "CHR ''_'' \<in> set X")
    case True
    then obtain y where "y \<in> set X" "\<not> y \<noteq> CHR ''_''" by blast
    then show ?thesis by (rule takeWhile_append1)
  next
    case False
    then have "takeWhile (\<lambda>x. x \<noteq> CHR ''_'') (X @ CHR ''_'' # r)
        = X @ takeWhile (\<lambda>x. x \<noteq> CHR ''_'') (CHR ''_'' # r)"
      by (intro takeWhile_append2) auto
    with False show ?thesis by (simp add: takeWhile_no_sep)
  qed
  finally show ?thesis .
qed

lemma item_check_AVAILABLE: "hd (rsplit_n CHR ''_'' (Suc 0) (X @ ''_AVAILABLE'')) = X"
  using rsplit_last_sep [of "CHR ''_''" "''AVAILABLE''" X] by simp

lemma getattr_AVAILABLE:
  assumes "takeWhile (\<lambda>x. x \<noteq> CHR ''_'') X \<noteq> ''BEFORE''"
    and "takeWhile (\<lambda>x. x \<noteq> CHR ''_'') X \<noteq> ''AFTER''"
  shows "Config_getattr e now (X @ ''_AVAILABLE'') =
     (case getattr_default (py_getattr e now (X @ ''_STOCK'')) PNone of
        Inl err \<Rightarrow> Inl err
      | Inr stock_setting \<Rightarrow>
          if stock_setting = PNone then Inr (PBool True)
          else
            (case getattr_default (py_getattr e now (X @ ''_COUNT'')) PNone of
               Inl err \<Rightarrow> Inl err
             | Inr count_check \<Rightarrow>
                 if count_check = PNone then Inr (PBool False)
                 else
                   (case py_int (int_of_str e) count_check of
                      Inl err \<Rightarrow> Inl err
                    | Inr count \<Rightarrow>
                        (case py_int (int_of_str e) stock_setting of
                           Inl err \<Rightarrow> Inl err
                         | Inr stock \<Rightarrow> Inr (PBool (count < stock))))))"
proof -
  have fw: "hd (split_on CHR ''_'' (X @ ''_AVAILABLE'')) = takeWhile (\<lambda>x. x \<noteq> CHR ''_'') X"
    using first_word_suffix [of X "''AVAILABLE''"] by simp
  have a: "\<not> endswith (X @ ''_AVAILABLE'') ''_ACCESS''"
    using endswith_last [of "X @ ''_AVAILABLE''" "''_ACCESS''"] by auto
  have c: "\<not> endswith (X @ ''_AVAILABLE'') ''_COUNT''"
    using endswith_last [of "X @ ''_AVAILABLE''" "''_COUNT''"] by auto
  have v: "endswith (X @ ''_AVAILABLE'') ''_AVAILABLE''" by (rule endswith_append)
  show ?thesis
    by (subst Config_getattr.simps)
       (simp only: fw assms a c v item_check_AVAILABLE py_getattr_def simp_thms if_True if_False)
qed

lemma getattr_plain:
  assumes "hd (split_on CHR ''_'' name) \<noteq> ''BEFORE''"
    and "hd (split_on CHR ''_'' name) \<noteq> ''AFTER''"
    and "\<not> (startswith name ''HAS_'' \<and> endswith name ''_ACCESS'')"
    and "\<not> endswith name ''_COUNT''"
    and "\<not> endswith name ''_AVAILABLE''"
  shows "Config_getattr e now name =
     (case secret_attrs e name of
        Some v \<Rightarrow> Inr v
      | None \<Rightarrow>
          (case secret_section e (lower name) of
             Some v \<Rightarrow> Inr v
           | None \<Rightarrow> Inl (AttributeError (''no such attribute '' @ name))))"
  by (subst Config_getattr.simps) (simp only: assms simp_thms if_False)

lemma no_stock_setting:
  assumes "takeWhile (\<lambda>x. x \<noteq> CHR ''_'') X \<noteq> ''BEFORE''"
    and "takeWhile (\<lambda>x. x \<noteq> CHR ''_'') X \<noteq> ''AFTER''"
    and "attrs e (X @ ''_STOCK'') = None"
    and "secret_attrs e (X @ ''_STOCK'') = None"
    and "secret_section e (lower (X @ ''_STOCK'')) = None"
  shows "getattr_default (py_getattr e now (X @ ''_STOCK'')) PNone = Inr PNone"
proof -
  have fw: "hd (split_on CHR ''_'' (X @ ''_STOCK'')) = takeWhile (\<lambda>x. x \<noteq> CHR ''_'') X"
    using first_word_suffix [of X "''STOCK''"] by simp
  have a: "\<not> endswith (X @ ''_STOCK'') ''_ACCESS''"
    using endswith_last [of "X @ ''_STOCK''" "''_ACCESS''"] by auto
  have c: "\<not> endswith (X @ ''_STOCK'') ''_COUNT''"
    using endswith_last [of "X @ ''_STOCK''" "''_COUNT''"] by auto
  have v: "\<not> endswith (X @ ''_STOCK'') ''_AVAILABLE''"
    using endswith_last [of "X @ ''_STOCK''" "''_AVAILABLE''"] by auto
  have "Config_getattr e now (X @ ''_STOCK'') =
      Inl (AttributeError (''no such attribute '' @ (X @ ''_STOCK'')))"
    using assms(1,2) a c v by (subst getattr_plain) (simp_all only: fw assms(4,5) simp_thms option.case)
  then show ?thesis
    by (simp only: py_getattr_def assms(3) option.case getattr_default.simps)
qed

text \<open>
  Claim C3, as amended. For a name \<open>X_AVAILABLE\<close> that reaches the availability
  branch of the fallback (its first word is neither \<open>BEFORE\<close> nor \<open>AFTER\<close>, which
  the date branch takes first): when no \<open>X_STOCK\<close> setting exists, or the lookup of
  \<open>X_STOCK\<close> gives \<open>None\<close>, the result is \<open>True\<close>; when there is a stock but
  the lookup of \<open>X_COUNT\<close> gives \<open>None\<close>, the result is \<open>False\<close>; otherwise,
  when \<open>int\<close> converts both the count and the stock, the result is \<open>True\<close> exactly
  when the count is strictly below the stock.
\<close>

theorem available_fallback:
  assumes "hd (split_on CHR ''_'' (X @ ''_AVAILABLE'')) \<noteq> ''BEFORE''"
    and "hd (split_on CHR ''_'' (X @ ''_AVAILABLE'')) \<noteq> ''AFTER''"
  shows "(attrs e (X @ ''_STOCK'') = None \<and> secret_attrs e (X @ ''_STOCK'') = None
            \<and> secret_section e (lower (X @ ''_STOCK'')) = None \<longrightarrow>
          Config_getattr e now (X @ ''_AVAILABLE'') = Inr (PBool True))
       \<and> (getattr_default (py_getattr e now (X @ ''_STOCK'')) PNone = Inr PNone \<longrightarrow>
          Config_getattr e now (X @ ''_AVAILABLE'') = Inr (PBool True))
       \<and> (\<forall>stock. getattr_default (py_getattr e now (X @ ''_STOCK'')) PNone = Inr stock
            \<and> stock \<noteq> PNone
            \<and> getattr_default (py_getattr e now (X @ ''_COUNT'')) PNone = Inr PNone \<longrightarrow>
          Config_getattr e now (X @ ''_AVAILABLE'') = Inr (PBool False))
       \<and> (\<forall>stock count a b. getattr_default (py_getattr e now (X @ ''_STOCK'')) PNone = Inr stock
            \<and> stock \<noteq> PNone
            \<and> getattr_default (py_getattr e now (X @ ''_COUNT'')) PNone = Inr count
            \<and> count \<noteq> PNone
            \<and> py_int (int_of_str e) count = Inr a \<and> py_int (int_of_str e) stock = Inr b \<longrightarrow>
          Config_getattr e now (X @ ''_AVAILABLE'') = Inr (PBool (a < b)))"
proof -
  have fw: "hd (split_on CHR ''_'' (X @ ''_AVAILABLE'')) = takeWhile (\<lambda>x. x \<noteq> CHR ''_'') X"
    using first_word_suffix [of X "''AVAILABLE''"] by simp
  from assms have b: "takeWhile (\<lambda>x. x \<noteq> CHR ''_'') X \<noteq> ''BEFORE''"
    and a: "takeWhile (\<lambda>x. x \<noteq> CHR ''_'') X \<noteq> ''AFTER''"
    by (simp_all only: fw not_False_eq_True)
  note av = getattr_AVAILABLE [OF b a, of e now]
  have 1: "Config_getattr e now (X @ ''_AVAILABLE'') = Inr (PBool True)"
    if "attrs e (X @ ''_STOCK'') = None \<and> secret_attrs e (X @ ''_STOCK'') = None
            \<and> secret_section e (lower (X @ ''_STOCK'')) = None"
  proof -
    from that have "getattr_default (py_getattr e now (X @ ''_STOCK'')) PNone = Inr PNone"
      using no_stock_setting [OF b a, of e now] by blast
    then show ?thesis unfolding av by simp
  qed
  have 2: "Config_getattr e now (X @ ''_AVAILABLE'') = Inr (PBool True)"
    if "getattr_default (py_getattr e now (X @ ''_STOCK'')) PNone = Inr PNone"
    using that unfolding av by simp
  have 3: "Config_getattr e now (X @ ''_AVAILABLE'') = Inr (PBool False)"
    if "getattr_default (py_getattr e now (X @ ''_STOCK'')) PNone = Inr stock
            \<and> stock \<noteq> PNone
            \<and> getattr_default (py_getattr e now (X @ ''_COUNT'')) PNone = Inr PNone" for stock
    using that unfolding av by simp
  have 4: "Config_getattr e now (X @ ''_AVAILABLE'') = Inr (PBool (a < b))"
    if "getattr_default (py_getattr e now (X @ ''_STOCK'')) PNone = Inr stock
            \<and> stock \<noteq> PNone
            \<and> getattr_default (py_getattr e now (X @ ''_COUNT'')) PNone = Inr count
            \<and> count \<noteq> PNone
            \<and> py_int (int_of_str e) count = Inr a \<and> py_int (int_of_str e) stock = Inr b"
    for stock count a b
    using that unfolding av by simp
  from 1 2 3 4 show ?thesis by blast
qed

lemma demo_SHIRT_COUNT: "getattr_default (py_getattr demo_env 0 ''SHIRT_COUNT'') PNone = Inr PNone"
  by (simp add: py_getattr_def demo_env_def Config_getattr.simps split_on_def rsplit_n_def
      startswith_def endswith_def lower_def lower_char_def)

theorem available_fallback_witness:
  "Config_getattr demo_env 0 ''ATTENDEE_BADGE_AVAILABLE'' = Inr (PBool True)
   \<and> Config_getattr demo_env 0 ''SHIRT_AVAILABLE'' = Inr (PBool False)
   \<and> Config_getattr demo_env 0 ''SUPPORTER_AVAILABLE'' = Inr (PBool True)"
proof -
  have 1: "Config_getattr demo_env 0 ''ATTENDEE_BADGE_AVAILABLE'' = Inr (PBool True)"
    using available_fallback [of "''ATTENDEE_BADGE''" demo_env 0]
    by (simp add: split_on_def demo_env_def lower_def lower_char_def)
  have 2: "Config_getattr demo_env 0 ''SHIRT_AVAILABLE'' = Inr (PBool False)"
    using available_fallback [of "''SHIRT''" demo_env 0] demo_SHIRT_COUNT
    by (simp add: split_on_def py_getattr_def demo_env_def)
  have 3: "Config_getattr demo_env 0 ''SUPPORTER_AVAILABLE'' = Inr (PBool True)"
    using available_fallback [of "''SUPPORTER''" demo_env 0]
    by (simp add: split_on_def py_getattr_def demo_env_def)
  from 1 2 3 show ?thesis by simp
qed

text \<open>
  Claim C3 as stated, for every name of the form \<open>X_AVAILABLE\<close>, fails. A name
  whose first word is \<open>BEFORE\<close> or \<open>AFTER\<close> is taken by the date branch: with no
  stock setting of that name, \<open>BEFORE_SHIRT_AVAILABLE\<close> is \<open>False\<close> and
  \<open>AFTER_ATTENDEE_BADGE_AVAILABLE\<close> raises \<open>TypeError\<close>. And where a stock and a
  count are set but \<open>int\<close> does not convert the stock, the result is a
  \<open>ValueError\<close> and no comparison.
\<close>

theorem available_fallback_other_outcomes:
  "attrs demo_env ''BEFORE_SHIRT_STOCK'' = None
   \<and> secret_attrs demo_env ''BEFORE_SHIRT_STOCK'' = None
   \<and> secret_section demo_env (lower ''BEFORE_SHIRT_STOCK'') = None
   \<and> Config_getattr demo_env 0 ''BEFORE_SHIRT_AVAILABLE'' = Inr (PBool False)
   \<and> attrs demo_env ''AFTER_ATTENDEE_BADGE_STOCK'' = None
   \<and> secret_attrs demo_env ''AFTER_ATTENDEE_BADGE_STOCK'' = None
   \<and> secret_section demo_env (lower ''AFTER_ATTENDEE_BADGE_STOCK'') = None
   \<and> Config_getattr demo_env 0 ''AFTER_ATTENDEE_BADGE_AVAILABLE'' = Inl TypeError
   \<and> attrs text_stock_env ''TICKET_STOCK'' = Some (PStr ''many'')
   \<and> attrs text_stock_env ''TICKET_COUNT'' = Some (PInt 3)
   \<and> Config_getattr text_stock_env 0 ''TICKET_AVAILABLE'' = Inl ValueError"
proof -
  have 1: "Config_getattr demo_env 0 ''BEFORE_SHIRT_AVAILABLE'' = Inr (PBool False)"
    by (simp add: py_getattr_def demo_env_def Config_getattr.simps split_on_def rsplit_n_def
        py_index_def startswith_def endswith_def lower_def lower_char_def)
  have 2: "Config_getattr demo_env 0 ''AFTER_ATTENDEE_BADGE_AVAILABLE'' = Inl TypeError"
    by (simp add: py_getattr_def demo_env_def Config_getattr.simps split_on_def rsplit_n_def
        py_index_def startswith_def endswith_def lower_def lower_char_def)
  have 3: "Config_getattr text_stock_env 0 ''TICKET_AVAILABLE'' = Inl ValueError"
    by (simp add: py_getattr_def text_stock_env_def Config_getattr.simps split_on_def rsplit_n_def
        py_index_def startswith_def endswith_def lower_def lower_char_def)
  from 1 2 3 show ?thesis
    by (simp add: demo_env_def text_stock_env_def)
qed

subsection \<open>Names that no branch handles\<close>

text \<open>
  A name that starts with neither \<open>BEFORE_\<close> nor \<open>AFTER_\<close>, matches none of the
  other patterns and is found neither on the secrets object nor in the secret section
  is reported by an \<open>AttributeError\<close> that names it, the bare names \<open>BEFORE\<close> and
  \<open>AFTER\<close> excepted: the first test of the fallback compares the first word of
  the name, so these two take the date branch although they carry no date name.
\<close>

lemma first_word_cases:
  assumes "hd (split_on CHR ''_'' name) = w" and "w \<noteq> []"
  shows "name = w \<or> startswith name (w @ ''_'')"
proof -
  from assms have ne: "name \<noteq> []" by (auto simp: split_on_def)
  then have "hd (split_on CHR ''_'' name) = takeWhile (\<lambda>x. x \<noteq> CHR ''_'') name"
    unfolding split_on_def by (intro hd_split_n) simp
  with assms(1) have tw: "takeWhile (\<lambda>x. x \<noteq> CHR ''_'') name = w" by simp
  show ?thesis
  proof (cases "CHR ''_'' \<in> set name")
    case False
    then show ?thesis using tw by (simp add: takeWhile_no_sep)
  next
    case True
    then have "name = w @ CHR ''_'' # tl (dropWhile (\<lambda>x. x \<noteq> CHR ''_'') name)"
      using split_decomp [of "CHR ''_''" name] tw by simp
    then have "name = (w @ ''_'') @ tl (dropWhile (\<lambda>x. x \<noteq> CHR ''_'') name)" by simp
    then have "startswith name (w @ ''_'')"
      using startswith_append [of "w @ ''_''" "tl (dropWhile (\<lambda>x. x \<noteq> CHR ''_'') name)"] by simp
    then show ?thesis ..
  qed
qed

lemma getattr_unresolvable:
  assumes "\<not> startswith name ''BEFORE_''" and "\<not> startswith name ''AFTER_''"
    and "name \<noteq> ''BEFORE''" and "name \<noteq> ''AFTER''"
    and "\<not> (startswith name ''HAS_'' \<and> endswith name ''_ACCESS'')"
    and "\<not> endswith name ''_COUNT''"
    and "\<not> endswith name ''_AVAILABLE''"
    and "secret_attrs e name = None"
    and "secret_section e (lower name) = None"
  shows "Config_getattr e now name = Inl (AttributeError (''no such attribute '' @ name))"
proof -
  have b: "hd (split_on CHR ''_'' name) \<noteq> ''BEFORE''"
    using first_word_cases [of name "''BEFORE''"] assms(1,3) by auto
  have a: "hd (split_on CHR ''_'' name) \<noteq> ''AFTER''"
    using first_word_cases [of name "''AFTER''"] assms(2,4) by auto
  show ?thesis
    using getattr_plain [OF b a assms(5,6,7), of e now] by (simp only: assms(8,9) option.case)
qed

text \<open>
  Claim C9 fails at the names \<open>AFTER\<close> and \<open>BEFORE\<close>: they match none of the
  patterns \<open>BEFORE_X\<close>, \<open>AFTER_X\<close>, \<open>HAS_X_ACCESS\<close>, \<open>X_COUNT\<close>,
  \<open>X_AVAILABLE\<close>, and whatever the secrets hold, the fallback raises \<open>IndexError\<close>
  from \<open>name.split('_', 1)[1]\<close> instead of the \<open>AttributeError\<close> of the claim.
\<close>

theorem getattr_bare_prefix_IndexError:
  "Config_getattr e now ''AFTER'' = Inl IndexError
   \<and> Config_getattr e now ''BEFORE'' = Inl IndexError"
  by (simp add: Config_getattr.simps [of e now "''AFTER''"] Config_getattr.simps [of e now "''BEFORE''"]
      split_on_def py_index_def)

section \<open>Properties of the API token controller\<close>

text \<open>
  Claim C7. In the list that \<open>index\<close> returns, every token is owned by the calling
  admin account unless that account holds the \<open>ADMIN\<close> access level, and no token has
  a revocation time unless a true \<open>show_revoked\<close> is passed; the list holds rows of
  the token table only.
\<close>

theorem index_restricts:
  "(ADMIN \<notin> set (access_ints (current_admin session)) \<longrightarrow>
      (\<forall>t \<in> set (api_tokens (index ADMIN session show_revoked' message')).
         admin_account_id t = account_id (current_admin session)))
   \<and> (\<not> truthy show_revoked' \<longrightarrow>
      (\<forall>t \<in> set (api_tokens (index ADMIN session show_revoked' message')).
         revoked_time t = None))
   \<and> set (api_tokens (index ADMIN session show_revoked' message')) \<subseteq> set (tokens session)"
  by (auto simp: index_def Let_def)

theorem index_restricts_witness:
  "map token_id (api_tokens (index 1 demo_session (PBool False) [])) = [''t1'']"
  using index_restricts [of 1 demo_session "PBool False" "[]"]
  by (simp add: index_def demo_session_def)

text \<open>
  Claim C5. On a POST whose parameters fail validation (\<open>check\<close> returns a non-empty
  message), \<open>create_api_token\<close> returns that message as its error and leaves the
  token table unchanged, with nothing left pending; when validation succeeds it
  persists the token and returns the token's identifier.
\<close>

theorem create_api_token_outcome:
  assumes "method = ''POST''"
    and "api_token = api_token_of (params(''admin_account_id'' \<mapsto> PStr account))"
  shows "(check api_token \<noteq> [] \<longrightarrow>
            fst (create_api_token api_token_of check method account session params)
              = Error (check api_token)
          \<and> tokens (snd (create_api_token api_token_of check method account session params))
              = tokens session
          \<and> added (snd (create_api_token api_token_of check method account session params)) = [])
       \<and> (check api_token = [] \<longrightarrow>
            fst (create_api_token api_token_of check method account session params)
              = Result (token_id api_token)
          \<and> tokens (snd (create_api_token api_token_of check method account session params))
              = tokens session @ added session @ [api_token])"
  using assms
  by (simp add: create_api_token_def Let_def session_commit_def session_add_def
      session_rollback_def)

theorem create_api_token_outcome_witness:
  "fst (create_api_token demo_token_of demo_check ''POST'' ''carol'' demo_session Map.empty)
     = Error ''Unknown account''
   \<and> tokens (snd (create_api_token demo_token_of demo_check ''POST'' ''carol'' demo_session Map.empty))
     = tokens demo_session
   \<and> fst (create_api_token demo_token_of demo_check ''POST'' ''alice'' demo_session Map.empty)
     = Result ''t4''
   \<and> map token_id (tokens (snd (create_api_token demo_token_of demo_check ''POST'' ''alice'' demo_session Map.empty)))
     = [''t1'', ''t2'', ''t3'', ''t4'']"
  using create_api_token_outcome [of "''POST''" _ demo_token_of Map.empty "''carol''" demo_check demo_session, OF refl refl]
    create_api_token_outcome [of "''POST''" _ demo_token_of Map.empty "''alice''" demo_check demo_session, OF refl refl]
  by (simp add: demo_token_of_def demo_check_def demo_session_def)

lemma find_token_id: "find (\<lambda>t. token_id t = i) ts = Some t \<Longrightarrow> token_id t = i \<and> t \<in> set ts"
  by (auto simp: find_Some_iff)

lemma revoke_map_cases:
  assumes "t \<in> set (map (\<lambda>u. if token_id u = i then u\<lparr>revoked_time := Some utcnow\<rparr> else u) ts)"
  shows "(token_id t = i \<longrightarrow> revoked_time t = Some utcnow)
       \<and> (token_id t \<noteq> i \<longrightarrow> t \<in> set ts)"
proof -
  from assms obtain u where u: "u \<in> set ts"
    and t: "t = (if token_id u = i then u\<lparr>revoked_time := Some utcnow\<rparr> else u)"
    by (auto simp only: set_map image_iff)
  show ?thesis
  proof (cases "token_id u = i")
    case True
    with t show ?thesis by simp
  next
    case False
    with t u show ?thesis by simp
  qed
qed

lemma index_default_unrevoked:
  "t \<in> set (api_tokens (index ADMIN session (PBool False) message')) \<Longrightarrow>
     t \<in> set (tokens session) \<and> revoked_time t = None"
  by (auto simp: index_def Let_def split: if_splits)

text \<open>
  Claim C6. After a successful revocation (a POST with an identifier, answered by the
  redirect that carries the success message) the token table holds the same
  identifiers as before, the token with the revoked identifier is still there with
  its revocation time set to the time of the call, every other row is an unchanged row
  of the old table, and a listing by \<open>index\<close> with \<open>show_revoked\<close> left at its
  default contains no token with that identifier.
\<close>

theorem revoke_api_token_retains:
  assumes "revoke_api_token method utcnow session (Some i) =
             Inr (HTTPRedirect ''index?message=Successfully revoked API token'', session')"
  shows "map token_id (tokens session') = map token_id (tokens session)
       \<and> i \<in> token_id ` set (tokens session')
       \<and> (\<forall>t \<in> set (tokens session'). token_id t = i \<longrightarrow> revoked_time t = Some utcnow)
       \<and> (\<forall>t \<in> set (tokens session'). token_id t \<noteq> i \<longrightarrow> t \<in> set (tokens session))
       \<and> (\<forall>t \<in> set (api_tokens (index ADMIN session' (PBool False) message')). token_id t \<noteq> i)"
proof -
  from assms obtain tok where f: "find (\<lambda>t. token_id t = i) (tokens session) = Some tok"
    and s': "session' = session\<lparr>tokens := map (\<lambda>t. if token_id t = token_id tok
                                              then t\<lparr>revoked_time := Some utcnow\<rparr> else t)
                                       (tokens session)\<rparr>"
    by (auto simp: revoke_api_token_def session_api_token_by_id_def
        split: if_splits option.splits)
  from f have tok: "token_id tok = i" "tok \<in> set (tokens session)"
    by (auto dest: find_token_id)
  have ts: "tokens session' =
      map (\<lambda>t. if token_id t = i then t\<lparr>revoked_time := Some utcnow\<rparr> else t) (tokens session)"
    by (simp add: s' tok(1))
  have 1: "map token_id (tokens session') = map token_id (tokens session)"
    by (simp add: ts o_def)
  have 2: "i \<in> token_id ` set (tokens session')"
  proof -
    have "set (map token_id (tokens session')) = set (map token_id (tokens session))"
      by (simp only: 1)
    then have "token_id ` set (tokens session') = token_id ` set (tokens session)"
      by (simp only: set_map)
    with tok show ?thesis by blast
  qed
  have 3: "\<forall>t \<in> set (tokens session'). token_id t = i \<longrightarrow> revoked_time t = Some utcnow"
    unfolding ts using revoke_map_cases by blast
  have 4: "\<forall>t \<in> set (tokens session'). token_id t \<noteq> i \<longrightarrow> t \<in> set (tokens session)"
    unfolding ts using revoke_map_cases by blast
  have 5: "\<forall>t \<in> set (api_tokens (index ADMIN session' (PBool False) message')). token_id t \<noteq> i"
  proof
    fix t assume "t \<in> set (api_tokens (index ADMIN session' (PBool False) message'))"
    then have "t \<in> set (tokens session')" and "revoked_time t = None"
      by (auto dest: index_default_unrevoked)
    with 3 show "token_id t \<noteq> i" by auto
  qed
  from 1 2 3 4 5 show ?thesis by blast
qed

theorem revoke_api_token_retains_witness:
  "map token_id (api_tokens (index 7 (snd (projr (revoke_api_token ''POST'' 8 demo_session (Some ''t2'')))) (PBool False) []))
     = [''t1'']
   \<and> map revoked_time (tokens (snd (projr (revoke_api_token ''POST'' 8 demo_session (Some ''t2'')))))
     = [None, Some 8, Some 5]"
proof -
  let ?s' = "demo_session\<lparr>tokens := map (\<lambda>t. if token_id t = ''t2''
                                              then t\<lparr>revoked_time := Some 8\<rparr> else t)
                                       (tokens demo_session)\<rparr>"
  have r: "revoke_api_token ''POST'' 8 demo_session (Some ''t2'') =
             Inr (HTTPRedirect ''index?message=Successfully revoked API token'', ?s')"
    by (simp add: revoke_api_token_def session_api_token_by_id_def demo_session_def)
  have t: "tokens ?s' = [\<lparr>token_id = ''t1'', admin_account_id = ''alice'', issued_time = 3, revoked_time = None\<rparr>,
                \<lparr>token_id = ''t2'', admin_account_id = ''bob'', issued_time = 1, revoked_time = Some 8\<rparr>,
                \<lparr>token_id = ''t3'', admin_account_id = ''alice'', issued_time = 2, revoked_time = Some 5\<rparr>]"
    by (simp add: demo_session_def)
  have c: "current_admin ?s' = \<lparr>account_id = ''alice'', access_ints = [7]\<rparr>"
    by (simp add: demo_session_def)
  have i: "map token_id (api_tokens (index 7 ?s' (PBool False) [])) = [''t1'']"
    unfolding index_def Let_def t c by simp
  from revoke_api_token_retains [OF r, of 7 "[]"] show ?thesis
    unfolding r by (simp add: i t)
qed

section \<open>Properties of the enum values\<close>

lemma hex_digit_range: "hex_digit ch = Some d \<Longrightarrow> 0 \<le> d \<and> d \<le> 15"
  unfolding hex_digit_def by (drule map_of_SomeD) auto

lemma hex_digit_hexchar: "ch \<in> set ''0123456789abcdef'' \<Longrightarrow> \<exists>d. hex_digit ch = Some d"
  unfolding hex_digit_def by auto

lemma int_base16_from_bound:
  assumes "set s \<subseteq> set ''0123456789abcdef''" and "0 \<le> acc"
  shows "\<exists>v. int_base16_from acc s = Inr v \<and> 0 \<le> v \<and> v < (acc + 1) * 16 ^ length s"
  using assms
proof (induction s arbitrary: acc)
  case Nil
  then show ?case by simp
next
  case (Cons ch s)
  from Cons.prems(1) have "ch \<in> set ''0123456789abcdef''" by simp
  then obtain d where d: "hex_digit ch = Some d" using hex_digit_hexchar by blast
  then have dr: "0 \<le> d" "d \<le> 15" using hex_digit_range by blast+
  from Cons.prems(1) have s: "set s \<subseteq> set ''0123456789abcdef''" by simp
  from dr Cons.prems(2) have acc': "0 \<le> 16 * acc + d" by simp
  from Cons.IH [OF s acc'] obtain v where v: "int_base16_from (16 * acc + d) s = Inr v"
    "0 \<le> v" "v < (16 * acc + d + 1) * 16 ^ length s" by blast
  have "(16 * acc + d + 1) * 16 ^ length s \<le> (16 * (acc + 1)) * 16 ^ length s"
    using dr by (intro mult_right_mono) simp_all
  also have "(16 * (acc + 1)) * 16 ^ length s = (acc + 1) * 16 ^ length (ch # s)" by simp
  finally have "(16 * acc + d + 1) * 16 ^ length s \<le> (acc + 1) * 16 ^ length (ch # s)" .
  with v(3) have "v < (acc + 1) * 16 ^ length (ch # s)" by (rule less_le_trans)
  with v(1,2) d show ?case by simp
qed

lemma take7_hexdigest:
  assumes "is_hexdigest h"
  shows "length (take 7 h) = 7" and "set (take 7 h) \<subseteq> set ''0123456789abcdef''"
proof -
  from assms show "length (take 7 h) = 7" by (simp add: is_hexdigest_def)
  from assms have "set h \<subseteq> set ''0123456789abcdef''" by (simp add: is_hexdigest_def)
  then show "set (take 7 h) \<subseteq> set ''0123456789abcdef''"
    using set_take_subset [of 7 h] by blast
qed

text \<open>
  Claim C8. Given that the digest is a hexadecimal SHA-512 digest,
  \<open>create_enum_val\<close> returns for a name the integer written by the first seven
  hexadecimal digits of the digest of the upper-cased name, a value below \<open>2 ^ 28\<close>;
  a call with any name that has the same upper-case form, whatever the attributes of
  the object at that time, returns the same integer.
\<close>

theorem create_enum_val_deterministic:
  assumes "\<forall>s. is_hexdigest (sha512_hexdigest s)"
  shows "\<exists>val. create_enum_val sha512_hexdigest attributes name
                  = Inr (val, attributes(upper name \<mapsto> PInt val))
           \<and> int_base16 (take 7 (sha512_hexdigest (upper name))) = Inr val
           \<and> 0 \<le> val \<and> val < 2 ^ 28
           \<and> (\<forall>attributes' name'. upper name' = upper name \<longrightarrow>
                 create_enum_val sha512_hexdigest attributes' name'
                   = Inr (val, attributes'(upper name \<mapsto> PInt val)))"
proof -
  let ?h = "take 7 (sha512_hexdigest (upper name))"
  from assms have hd: "is_hexdigest (sha512_hexdigest (upper name))" by blast
  have len: "length ?h = 7" and hex: "set ?h \<subseteq> set ''0123456789abcdef''"
    using take7_hexdigest [OF hd] by blast+
  from int_base16_from_bound [OF hex, of 0] obtain v
    where v: "int_base16_from 0 ?h = Inr v" "0 \<le> v" "v < 16 ^ length ?h" by auto
  from len have ne: "?h \<noteq> []" by auto
  have i: "int_base16 ?h = Inr v" using v(1) ne by (simp add: int_base16_def)
  have "(16::int) ^ 7 = 2 ^ 28" by simp
  with v(3) len have b: "v < 2 ^ 28" by simp
  have c: "create_enum_val sha512_hexdigest attributes' name'
             = Inr (v, attributes'(upper name \<mapsto> PInt v))"
    if "upper name' = upper name" for attributes' name'
    using that i by (simp add: create_enum_val_def)
  from c [of name attributes] c i v(2) b show ?thesis by blast
qed

lemma demo_digest_ok: "\<forall>s. is_hexdigest (demo_digest s)"
  by (simp add: is_hexdigest_def demo_digest_def)

theorem create_enum_val_deterministic_witness:
  "create_enum_val demo_digest Map.empty ''stripe'' = Inr (178956970, [''STRIPE'' \<mapsto> PInt 178956970])
   \<and> create_enum_val demo_digest [''STRIPE'' \<mapsto> PInt 178956970] ''Stripe''
       = Inr (178956970, [''STRIPE'' \<mapsto> PInt 178956970])"
proof -
  have u1: "upper ''stripe'' = ''STRIPE''" and u2: "upper ''Stripe'' = ''STRIPE''"
    by (simp_all add: upper_def upper_char_def)
  have t: "take 7 (demo_digest ''STRIPE'') = ''aaaaaaa''"
    by code_simp
  have i: "int_base16 ''aaaaaaa'' = Inr 178956970"
    by (simp add: int_base16_def hex_digit_def)
  from create_enum_val_deterministic [OF demo_digest_ok, of Map.empty "''stripe''"]
  obtain val where v: "create_enum_val demo_digest Map.empty ''stripe''
        = Inr (val, Map.empty(upper ''stripe'' \<mapsto> PInt val))"
      "int_base16 (take 7 (demo_digest (upper ''stripe''))) = Inr val"
      "\<forall>attributes' name'. upper name' = upper ''stripe'' \<longrightarrow>
         create_enum_val demo_digest attributes' name'
           = Inr (val, attributes'(upper ''stripe'' \<mapsto> PInt val))"
    by blast
  from v(2) have val: "val = 178956970" by (simp only: u1 t i sum.inject)
  from v(3) have "create_enum_val demo_digest [''STRIPE'' \<mapsto> PInt 178956970] ''Stripe''
           = Inr (val, [''STRIPE'' \<mapsto> PInt 178956970](upper ''stripe'' \<mapsto> PInt val))"
    using u1 u2 by metis
  with v(1) show ?thesis by (simp add: val u1)
qed

section \<open>Properties of the dates\<close>

subsection \<open>What a match says about the string\<close>


























lemma digit_char: "digit_value ch \<noteq> None \<Longrightarrow> ch \<in> set ''0123456789''"
proof -
  assume "digit_value ch \<noteq> None"
  then obtain v where "digit_value ch = Some v" by (cases "digit_value ch") simp_all
  then show ?thesis unfolding digit_value_def by (drule_tac map_of_SomeD) auto
qed

lemma is_number_chars: "is_number w v \<Longrightarrow> ch \<in> set w \<Longrightarrow> ch \<in> set ''0123456789''"
  by (rule digit_char) (simp add: is_number_def list_all_iff)


lemma is_number_no_colon: "is_number w v \<Longrightarrow> CHR '':'' \<notin> set w"
  using is_number_chars [of w v "CHR '':''"] by auto

lemma is_number_no_space: "is_number w v \<Longrightarrow> ch \<in> set w \<Longrightarrow> \<not> is_space ch"
  using is_number_chars [of w v ch] by (auto simp: is_space_def)






subsection \<open>The loop and its rounds\<close>

text \<open>
  One round of the loop stores the value computed from the string under the
  upper-cased option name, and enters it in \<open>DATES\<close> when it is a datetime.
\<close>

lemma make_dates_one:
  "make_dates tz [(opt, val)] st =
     (case parse_date_setting tz val of
        Inl err \<Rightarrow> Inl err
      | Inr dt \<Rightarrow>
          Inr (st\<lparr>date_attrs := (date_attrs st)(upper opt \<mapsto> dt),
                  DATES := (case dt of None \<Rightarrow> DATES st | Some d \<Rightarrow> (DATES st)(upper opt \<mapsto> d))\<rparr>))"
  by (cases "parse_date_setting tz val") simp_all





end
